theory Spec2Isabelle
  imports Complex_Main "HOL-Library.Log_Nat"
begin

section \<open>JavaScript numbers and values\<close>

text \<open>
  The sound analyser of \<^verbatim>\<open>src/SoundAnalyse/SoundAnalyse.js\<close> computes with JavaScript
  numbers, which are IEEE-754 double-precision values. A number is modelled as a
  rational (the value of a finite double), or one of the three non-finite values that
  overflow, division by zero and reads of \<^verbatim>\<open>undefined\<close> produce. Addition,
  multiplication and division round their exact result to the nearest double, ties to
  the even significand, as the machine does. The sign of zero is not modelled.
\<close>

datatype jsnum = NaN | PInf | NInf | Fin rat

text \<open>
  The binary exponent of a non-zero rational: the \<open>e\<close> with \<open>2^e \<le> |x| < 2^(e+1)\<close>.
  The difference of the bit lengths of numerator and denominator is \<open>e\<close> or \<open>e + 1\<close>.
\<close>

definition ilog2 :: "rat \<Rightarrow> int" where
  "ilog2 x =
     (let (p, q) = quotient_of \<bar>x\<bar>;
          e = bitlen p - bitlen q
      in if 2 powi e \<le> \<bar>x\<bar> then e else e - 1)"

text \<open>Rounding to the nearest integer, a tie going to the even one.\<close>

definition round_half_even :: "rat \<Rightarrow> int" where
  "round_half_even t =
     (let f = \<lfloor>t\<rfloor>; d = t - of_int f
      in if d < 1 / 2 then f else if 1 / 2 < d then f + 1 else if even f then f else f + 1)"

text \<open>
  Rounding an exact result to a double. A double has a 53-bit significand and a binary
  exponent from -1022 to 1023: a value with exponent \<open>e\<close> is a multiple of the quantum
  \<open>2^(e - 52)\<close>, and below \<open>2^(-1022)\<close> the quantum stays \<open>2^(-1074)\<close> (subnormal
  numbers). The exact value is rounded to the nearest multiple of its quantum; a result
  of magnitude \<open>2^1024\<close> or more is an infinity.
\<close>

definition round_double :: "rat \<Rightarrow> jsnum" where
  "round_double x =
     (if x = 0 then Fin 0
      else
        let e = max (ilog2 x) (- 1022);
            q = 2 powi (e - 52);
            r = round_half_even (x / q)
        in if 1023 < e \<or> (e = 1023 \<and> 2 ^ 53 \<le> \<bar>r\<bar>) then (if 0 < x then PInf else NInf)
           else Fin (of_int r * q))"

fun js_add :: "jsnum \<Rightarrow> jsnum \<Rightarrow> jsnum" where
  "js_add (Fin a) (Fin b) = round_double (a + b)"
| "js_add NaN _ = NaN"
| "js_add _ NaN = NaN"
| "js_add PInf NInf = NaN"
| "js_add NInf PInf = NaN"
| "js_add PInf _ = PInf"
| "js_add _ PInf = PInf"
| "js_add NInf _ = NInf"
| "js_add _ NInf = NInf"

fun js_mul :: "jsnum \<Rightarrow> jsnum \<Rightarrow> jsnum" where
  "js_mul (Fin a) (Fin b) = round_double (a * b)"
| "js_mul NaN _ = NaN"
| "js_mul _ NaN = NaN"
| "js_mul PInf (Fin b) = (if b = 0 then NaN else if 0 < b then PInf else NInf)"
| "js_mul NInf (Fin b) = (if b = 0 then NaN else if 0 < b then NInf else PInf)"
| "js_mul (Fin a) PInf = (if a = 0 then NaN else if 0 < a then PInf else NInf)"
| "js_mul (Fin a) NInf = (if a = 0 then NaN else if 0 < a then NInf else PInf)"
| "js_mul PInf PInf = PInf"
| "js_mul PInf NInf = NInf"
| "js_mul NInf PInf = NInf"
| "js_mul NInf NInf = PInf"

fun js_div :: "jsnum \<Rightarrow> jsnum \<Rightarrow> jsnum" where
  "js_div (Fin a) (Fin b) =
     (if b \<noteq> 0 then round_double (a / b)
      else if a = 0 then NaN else if 0 < a then PInf else NInf)"
| "js_div NaN _ = NaN"
| "js_div _ NaN = NaN"
| "js_div (Fin a) PInf = Fin 0"
| "js_div (Fin a) NInf = Fin 0"
| "js_div PInf (Fin b) = (if 0 \<le> b then PInf else NInf)"
| "js_div NInf (Fin b) = (if 0 \<le> b then NInf else PInf)"
| "js_div _ _ = NaN"

text \<open>
  \<^verbatim>\<open>a % b\<close>: the remainder takes the sign of the dividend. The remainder of two
  doubles is a double, so nothing is rounded.
\<close>

fun js_mod :: "jsnum \<Rightarrow> jsnum \<Rightarrow> jsnum" where
  "js_mod (Fin a) (Fin b) =
     (if b = 0 then NaN
      else Fin (a - b * of_int (if 0 \<le> a / b then \<lfloor>a / b\<rfloor> else \<lceil>a / b\<rceil>)))"
| "js_mod (Fin a) PInf = Fin a"
| "js_mod (Fin a) NInf = Fin a"
| "js_mod _ _ = NaN"

text \<open>
  \<^verbatim>\<open>Math.floor\<close> and \<^verbatim>\<open>Math.round\<close> (which rounds halves upwards). Both take a
  double to an integer that is a double, so nothing is rounded.
\<close>

fun js_floor :: "jsnum \<Rightarrow> jsnum" where
  "js_floor (Fin a) = Fin (of_int \<lfloor>a\<rfloor>)"
| "js_floor v = v"

fun js_round :: "jsnum \<Rightarrow> jsnum" where
  "js_round (Fin a) = Fin (of_int \<lfloor>a + 1 / 2\<rfloor>)"
| "js_round v = v"

text \<open>Comparisons: every comparison with \<^verbatim>\<open>NaN\<close> is false.\<close>

fun js_lt :: "jsnum \<Rightarrow> jsnum \<Rightarrow> bool" where
  "js_lt (Fin a) (Fin b) = (a < b)"
| "js_lt NaN _ = False"
| "js_lt _ NaN = False"
| "js_lt _ NInf = False"
| "js_lt PInf _ = False"
| "js_lt _ _ = True"

fun js_le :: "jsnum \<Rightarrow> jsnum \<Rightarrow> bool" where
  "js_le (Fin a) (Fin b) = (a \<le> b)"
| "js_le NaN _ = False"
| "js_le _ NaN = False"
| "js_le NInf _ = True"
| "js_le _ PInf = True"
| "js_le _ _ = False"

text \<open>Truthiness of a number, as \<^verbatim>\<open>||\<close> tests it: zero and \<^verbatim>\<open>NaN\<close> are falsy.\<close>

fun js_truthy :: "jsnum \<Rightarrow> bool" where
  "js_truthy (Fin a) = (a \<noteq> 0)"
| "js_truthy NaN = False"
| "js_truthy _ = True"

text \<open>
  The values that reach the properties and event slots modelled here: \<^verbatim>\<open>undefined\<close>,
  a boolean, a number, a string, or an array of integer samples (a \<^verbatim>\<open>Uint8Array\<close>, or the
  plain array of integers the fake-data generator builds).
\<close>

datatype jsval = Undefined | Bool bool | Num jsnum | Str string | Arr "int list"

text \<open>
  Reading \<^verbatim>\<open>dataArray[i]\<close> for use in arithmetic: an index beyond the array reads
  \<^verbatim>\<open>undefined\<close>, which arithmetic turns into \<^verbatim>\<open>NaN\<close>. A sample array is a list
  of integers; the samples the analyser handles (bytes, or the magnitudes of the
  generator's draws) are far below \<open>2^53\<close> and so are doubles.
\<close>

definition elem :: "int list \<Rightarrow> nat \<Rightarrow> jsnum" where
  "elem dataArray i = (if i < length dataArray then Fin (of_int (dataArray ! i)) else NaN)"

text \<open>An optional numeric argument used in arithmetic: when omitted it is \<^verbatim>\<open>undefined\<close>.\<close>

fun to_number :: "jsnum option \<Rightarrow> jsnum" where
  "to_number None = NaN"
| "to_number (Some v) = v"

section \<open>Averaging: \<^verbatim>\<open>getAvg\<close>\<close>

text \<open>
  \<^verbatim>\<open>getAvg\<close> (lines 332-342) adds up the elements at indices \<open>0 .. length - 1\<close> and
  returns \<^verbatim>\<open>Math.floor(values / length)\<close>.
\<close>

definition getAvg :: "int list \<Rightarrow> jsnum" where
  "getAvg dataArr =
     (let length = length dataArr;
          values = fold (\<lambda>i values. js_add values (elem dataArr i)) [0..<length] (Fin 0);
          average = js_floor (js_div values (Fin (of_nat length)))
      in average)"

section \<open>The analyser object\<close>

text \<open>
  Errors the modelled code can raise: reading an undeclared identifier, and using
  \<^verbatim>\<open>null\<close> where an object is needed.
\<close>

datatype error = ReferenceError | TypeError

text \<open>
  A Web Audio analyser node, as far as the plugin touches it. The node is created by the
  browser with \<open>fftSize = 2048\<close> and a decibel range of \<open>-100 .. -30\<close>; its
  \<^verbatim>\<open>frequencyBinCount\<close> is half its \<^verbatim>\<open>fftSize\<close>.
\<close>

record AnalyserNode =
  fftSize :: nat
  nodeMinDecibels :: jsnum
  nodeMaxDecibels :: jsnum

definition createAnalyser :: AnalyserNode where
  "createAnalyser = \<lparr>fftSize = 2048, nodeMinDecibels = Fin (- 100), nodeMaxDecibels = Fin (- 30)\<rparr>"

definition frequencyBinCount :: "AnalyserNode \<Rightarrow> nat" where
  "frequencyBinCount node = fftSize node div 2"

text \<open>
  The fields of \<^verbatim>\<open>Phaser.SoundAnalyser\<close> (lines 35-102, 137, 170); a private field
  \<^verbatim>\<open>_name\<close> is written \<open>priv_name\<close>. Consumers
  (\<^verbatim>\<open>bmpSoundAnalyze\<close>) are held by reference; a reference is a natural number.
  \<open>isPlaying\<close> is inherited from \<^verbatim>\<open>Phaser.Sound\<close>; \<open>console\<close> collects the values
  that \<^verbatim>\<open>console.warn\<close> was called about.
\<close>

record SoundAnalyser =
  allowFakeData :: bool
  analyserNode :: "AnalyserNode option"
  splitAnalyseNodeLeft :: "AnalyserNode option"
  splitAnalyseNodeRight :: "AnalyserNode option"
  priv_dataArray :: "int list option"
  priv_dataTimeArray :: "int list option"
  priv_bufferLength :: nat
  bmpSoundAnalyze :: "nat list"
  supportAnalyse :: bool
  priv_fastFourierTransform :: nat
  priv_minDecibels :: jsnum
  priv_maxDecibels :: jsnum
  isPlaying :: bool
  console :: "jsval list"

text \<open>
  The constructor (lines 35-239). Its arguments here: whether the audio context offers
  \<^verbatim>\<open>createAnalyser\<close> and \<^verbatim>\<open>createChannelSplitter\<close>, and the \<^verbatim>\<open>allowFakeData\<close>
  argument. Line 43 reads \<^verbatim>\<open>this.allowFakeData = true;//allowFakeData === true;\<close>.
\<close>

definition SoundAnalyser_new :: "bool \<Rightarrow> bool \<Rightarrow> jsval \<Rightarrow> SoundAnalyser" where
  "SoundAnalyser_new hasCreateAnalyser hasCreateChannelSplitter allowFakeData_arg =
     (let this = \<lparr>allowFakeData = True,
                  analyserNode = None,
                  splitAnalyseNodeLeft = None,
                  splitAnalyseNodeRight = None,
                  priv_dataArray = None,
                  priv_dataTimeArray = None,
                  priv_bufferLength = 0,
                  bmpSoundAnalyze = [],
                  supportAnalyse = False,
                  priv_fastFourierTransform = 2048,
                  priv_minDecibels = Fin (- 150),
                  priv_maxDecibels = Fin 10,
                  isPlaying = False,
                  console = []\<rparr>
      in if hasCreateAnalyser then
           let node = createAnalyser\<lparr>fftSize := priv_fastFourierTransform this\<rparr>;
               n = frequencyBinCount node;
               this = this\<lparr>supportAnalyse := True,
                           priv_bufferLength := n,
                           priv_dataArray := Some (replicate n 0),
                           priv_dataTimeArray := Some (replicate n 0),
                           analyserNode := Some (node\<lparr>nodeMinDecibels := priv_minDecibels this,
                                                     nodeMaxDecibels := priv_maxDecibels this\<rparr>)\<rparr>
           in if hasCreateChannelSplitter then
                this\<lparr>splitAnalyseNodeLeft :=
                        Some (createAnalyser\<lparr>fftSize := priv_fastFourierTransform this\<rparr>),
                     splitAnalyseNodeRight :=
                        Some (createAnalyser\<lparr>fftSize := priv_fastFourierTransform this\<rparr>)\<rparr>
              else this
         else if allowFakeData this then
           this\<lparr>priv_bufferLength := priv_fastFourierTransform this,
                priv_dataArray := Some (replicate (priv_fastFourierTransform this) 0),
                priv_dataTimeArray := Some (replicate (priv_fastFourierTransform this) 0)\<rparr>
         else this)"

text \<open>
  The setter of \<^verbatim>\<open>fastFourierTransform\<close> (lines 114-129). The guard is
  \<^verbatim>\<open>typeof val === "number" && val >= 32 && val <= 2048 && val % 2 === 0\<close>.
  A value that passes is stored after \<^verbatim>\<open>Math.round\<close>; the fields hold it as a
  natural number (\<open>fft_guard_even_integer\<close> below shows nothing is lost). Any other
  value is reported with \<^verbatim>\<open>console.warn\<close>.
\<close>

fun fft_guard :: "jsval \<Rightarrow> bool" where
  "fft_guard (Num val) =
     (js_le (Fin 32) val \<and> js_le val (Fin 2048) \<and> js_mod val (Fin 2) = Fin 0)"
| "fft_guard _ = False"

fun nat_of_jsnum :: "jsnum \<Rightarrow> nat" where
  "nat_of_jsnum (Fin a) = nat \<lfloor>a\<rfloor>"
| "nat_of_jsnum _ = 0"

fun set_fastFourierTransform :: "SoundAnalyser \<Rightarrow> jsval \<Rightarrow> SoundAnalyser" where
  "set_fastFourierTransform this (Num val) =
     (if fft_guard (Num val) then
        let val = nat_of_jsnum (js_round val);
            this = this\<lparr>priv_fastFourierTransform := val, priv_bufferLength := val\<rparr>
        in if supportAnalyse this
           then this\<lparr>analyserNode := map_option (\<lambda>node. node\<lparr>fftSize := val\<rparr>) (analyserNode this)\<rparr>
           else this
      else this\<lparr>console := console this @ [Num val]\<rparr>)"
| "set_fastFourierTransform this val = this\<lparr>console := console this @ [val]\<rparr>"

text \<open>The setters of \<^verbatim>\<open>minDecibels\<close> and \<^verbatim>\<open>maxDecibels\<close> (lines 149-161, 182-194).\<close>

fun set_minDecibels :: "SoundAnalyser \<Rightarrow> jsval \<Rightarrow> SoundAnalyser" where
  "set_minDecibels this (Num val) =
     (let this = this\<lparr>priv_minDecibels := val\<rparr>
      in if supportAnalyse this
         then this\<lparr>analyserNode := map_option (\<lambda>node. node\<lparr>nodeMinDecibels := val\<rparr>) (analyserNode this)\<rparr>
         else this)"
| "set_minDecibels this val = this\<lparr>console := console this @ [val]\<rparr>"

fun set_maxDecibels :: "SoundAnalyser \<Rightarrow> jsval \<Rightarrow> SoundAnalyser" where
  "set_maxDecibels this (Num val) =
     (let this = this\<lparr>priv_maxDecibels := val\<rparr>
      in if supportAnalyse this
         then this\<lparr>analyserNode := map_option (\<lambda>node. node\<lparr>nodeMaxDecibels := val\<rparr>) (analyserNode this)\<rparr>
         else this)"
| "set_maxDecibels this val = this\<lparr>console := console this @ [val]\<rparr>"

subsection \<open>The consumer registry\<close>

text \<open>\<^verbatim>\<open>addBitmapSoundAnalyse\<close> (lines 302-305) pushes the consumer and returns the analyser.\<close>

definition addBitmapSoundAnalyse :: "SoundAnalyser \<Rightarrow> nat \<Rightarrow> SoundAnalyser" where
  "addBitmapSoundAnalyse this bmp = this\<lparr>bmpSoundAnalyze := bmpSoundAnalyze this @ [bmp]\<rparr>"

text \<open>
  \<^verbatim>\<open>removeBitmapSoundAnalyse\<close> (lines 315-323):
  \<^verbatim>\<open>for (var k = length - 1; k >= 0; --k) if (arr[k] === bmp) { arr.splice(k, 1); break; }\<close>.
  In \<open>remove_scan\<close> the counter is \<open>k + 1\<close>, so that \<open>0\<close> stands for the loop's exit
  at \<open>k = -1\<close>.
\<close>

fun remove_scan :: "nat list \<Rightarrow> nat \<Rightarrow> nat \<Rightarrow> nat list" where
  "remove_scan arr bmp 0 = arr"
| "remove_scan arr bmp (Suc k) =
     (if arr ! k = bmp then take k arr @ drop (Suc k) arr
      else remove_scan arr bmp k)"

definition removeBitmapSoundAnalyse :: "SoundAnalyser \<Rightarrow> nat \<Rightarrow> SoundAnalyser" where
  "removeBitmapSoundAnalyse this bmp =
     this\<lparr>bmpSoundAnalyze := remove_scan (bmpSoundAnalyze this) bmp (length (bmpSoundAnalyze this))\<rparr>"

subsection \<open>Fake data\<close>

text \<open>
  \<^verbatim>\<open>getFakeData\<close> (lines 350-357) pushes
  \<^verbatim>\<open>Math.abs(this.game.rnd.integerInRange(this._minDecibels, this._maxDecibels))\<close>
  for \<open>k = 0 .. _bufferLength - 1\<close> and sorts with the comparator \<^verbatim>\<open>b - a\<close>, that is
  in descending order. The random generator belongs to the host framework: the
  argument \<open>integerInRange\<close> gives the integer its \<open>k\<close>-th call returns for the two bounds.
\<close>

definition getFakeData :: "(jsnum \<Rightarrow> jsnum \<Rightarrow> nat \<Rightarrow> int) \<Rightarrow> SoundAnalyser \<Rightarrow> int list" where
  "getFakeData integerInRange this =
     (let res = fold (\<lambda>k res. res @ [\<bar>integerInRange (priv_minDecibels this) (priv_maxDecibels this) k\<bar>])
                  [0..<priv_bufferLength this] []
      in rev (sort res))"

subsection \<open>The per-frame update\<close>

text \<open>
  What one dispatch carries (line 283): the arguments of \<^verbatim>\<open>onAnalyseUpdate.dispatch\<close>
  and of every consumer's \<^verbatim>\<open>updateAnalyse\<close>.
\<close>

record frame =
  frequencyData :: "int list"
  timeData :: "int list"
  frameBufferLength :: nat
  volume :: jsval
  averageLeft :: jsval
  averageRight :: jsval

text \<open>What the analyser nodes hold when a frame is read.\<close>

record readings =
  byteFrequencyData :: "int list"
  byteTimeDomainData :: "int list"
  leftFrequencyData :: "int list"
  rightFrequencyData :: "int list"

text \<open>\<^verbatim>\<open>node.getByteFrequencyData(array)\<close> overwrites the array in place, up to its length.\<close>

definition fill :: "int list \<Rightarrow> int list \<Rightarrow> int list" where
  "fill array src = take (length array) src @ drop (length src) array"

text \<open>
  \<^verbatim>\<open>update\<close> (lines 249-292), after the base class's own update. The result is the
  analyser and, when a frame was dispatched, the frame together with the consumers that
  were called with it, in order. With an analyser node but no channel splitter,
  line 261 dereferences \<^verbatim>\<open>null\<close>.
\<close>

definition update ::
  "(jsnum \<Rightarrow> jsnum \<Rightarrow> nat \<Rightarrow> int) \<Rightarrow> readings \<Rightarrow> SoundAnalyser \<Rightarrow>
   error + (SoundAnalyser \<times> (frame \<times> nat list) option)" where
  "update integerInRange hw this =
     (if isPlaying this then
        (case analyserNode this of
           Some node \<Rightarrow>
             (case (priv_dataArray this, priv_dataTimeArray this,
                    splitAnalyseNodeLeft this, splitAnalyseNodeRight this) of
                (Some d, Some t, Some left, Some right) \<Rightarrow>
                  let d = fill d (byteFrequencyData hw);
                      t = fill t (byteTimeDomainData hw);
                      arrayLeft = fill (replicate (frequencyBinCount left) 0) (leftFrequencyData hw);
                      averageLeft = getAvg arrayLeft;
                      arrayRight = fill (replicate (frequencyBinCount right) 0) (rightFrequencyData hw);
                      averageRight = getAvg arrayRight;
                      volMeter = getAvg d;
                      this = this\<lparr>priv_dataArray := Some d, priv_dataTimeArray := Some t\<rparr>
                  in Inr (this,
                          Some (\<lparr>frequencyData = d, timeData = t,
                                 frameBufferLength = priv_bufferLength this,
                                 volume = Num volMeter,
                                 averageLeft = Num averageLeft,
                                 averageRight = Num averageRight\<rparr>,
                                bmpSoundAnalyze this))
              | _ \<Rightarrow> Inl TypeError)
         | None \<Rightarrow>
             if allowFakeData this then
               let fakeData = getFakeData integerInRange this;
                   this = this\<lparr>priv_dataArray := Some fakeData, priv_dataTimeArray := Some fakeData\<rparr>;
                   averageLeft = Num (getAvg fakeData);
                   averageRight = Arr fakeData;
                   volMeter = Arr fakeData
               in Inr (this,
                       Some (\<lparr>frequencyData = fakeData, timeData = fakeData,
                              frameBufferLength = priv_bufferLength this,
                              volume = volMeter,
                              averageLeft = averageLeft,
                              averageRight = averageRight\<rparr>,
                             bmpSoundAnalyze this))
             else Inr (this, None))
      else Inr (this, None))"

section \<open>Resampling: \<^verbatim>\<open>getAvgData\<close> and \<^verbatim>\<open>eachAvgData\<close>\<close>

text \<open>
  The file is not in strict mode, and the two static functions use identifiers they do
  not declare: \<^verbatim>\<open>normalizeValue\<close> (line 372) and \<^verbatim>\<open>size\<close> (lines 380, 398, 412, 443,
  463, 478; the \<^verbatim>\<open>var\<close> lists of lines 373 and 436 do not contain it). These resolve
  to properties of the global object, so the global object is part of the model. A
  binding that does not exist is \<open>None\<close>. Assigning to an unbound identifier creates
  the global; reading one raises \<^verbatim>\<open>ReferenceError\<close>.
\<close>

record globals =
  normalizeValue :: "jsnum option"
  size_global :: "jsnum option"

text \<open>
  The samples are integers (bytes of a \<^verbatim>\<open>Uint8Array\<close>, or fake data);
  \<^verbatim>\<open>bufferLength\<close> and \<^verbatim>\<open>resultSlots\<close> are counts, that is natural numbers;
  \<^verbatim>\<open>maxMinValue\<close> and \<^verbatim>\<open>outMaxValue\<close> are numbers that the caller may omit.

  The two functions have the same loops and differ in one statement: where
  \<^verbatim>\<open>getAvgData\<close> has \<^verbatim>\<open>res.push(size)\<close>, \<^verbatim>\<open>eachAvgData\<close> has
  \<^verbatim>\<open>if (callback) callback.call(context, size, percent, x, i)\<close>. The loops are
  therefore written once, over that statement \<open>emit\<close>, which acts on what it is given
  (the array \<^verbatim>\<open>res\<close>, or the state the callback works on). A callback is taken to act
  on its own state only: it does not write to the data array it is iterating over.
  The local \<^verbatim>\<open>barWidth\<close>, computed from \<^verbatim>\<open>this.width\<close> and never used, is left out.
\<close>

type_synonym 's emit = "jsnum \<Rightarrow> jsnum \<Rightarrow> nat \<Rightarrow> nat \<Rightarrow> 's \<Rightarrow> 's"

text \<open>
  Lines 377-382 and 440-447: one bucket per sample. The loop state is what \<open>emit\<close> acts
  on, and the global \<^verbatim>\<open>size\<close>.
\<close>

definition direct_loop ::
  "'s emit \<Rightarrow> int list \<Rightarrow> nat \<Rightarrow> jsnum \<Rightarrow> jsnum \<Rightarrow> 's \<times> jsnum option \<Rightarrow> 's \<times> jsnum option" where
  "direct_loop emit dataArray bufferLength maxMinValue outMaxValue =
     fold (\<lambda>i (out, sz).
             let value = elem dataArray i;
                 percent = js_div value maxMinValue;
                 size = js_floor (js_mul outMaxValue percent)
             in (emit size percent i i out, Some size))
          [0..<bufferLength]"

text \<open>
  Lines 391-394 and 456-459: the inner loop
  \<^verbatim>\<open>for (var k = 0; k < destPart; ++k, ++i) { if (i >= bufferLength) break; avg += dataArray[i]; }\<close>.
  It returns \<open>i\<close> and \<open>avg\<close>.
\<close>

function run_loop :: "int list \<Rightarrow> nat \<Rightarrow> jsnum \<Rightarrow> nat \<Rightarrow> nat \<Rightarrow> jsnum \<Rightarrow> nat \<times> jsnum" where
  "run_loop dataArray bufferLength destPart k i avg =
     (if js_lt (Fin (of_nat k)) destPart then
        if i \<ge> bufferLength then (i, avg)
        else run_loop dataArray bufferLength destPart (k + 1) (i + 1) (js_add avg (elem dataArray i))
      else (i, avg))"
  by pat_completeness auto
termination
  by (relation "measure (\<lambda>(dataArray, bufferLength, destPart, k, i, avg). bufferLength - i)") auto

text \<open>
  Lines 389-402 and 454-468: the outer loop \<^verbatim>\<open>for (var x = 0; x < destBars; x++)\<close>,
  left early by \<^verbatim>\<open>if (i >= bufferLength) break\<close>. It returns \<open>x\<close>, \<open>i\<close>, what
  \<open>emit\<close> acts on, and the global \<^verbatim>\<open>size\<close>.
\<close>

function bars_loop ::
  "'s emit \<Rightarrow> int list \<Rightarrow> nat \<Rightarrow> nat \<Rightarrow> jsnum \<Rightarrow> jsnum \<Rightarrow> jsnum \<Rightarrow>
   nat \<Rightarrow> nat \<Rightarrow> 's \<Rightarrow> jsnum option \<Rightarrow> nat \<times> nat \<times> 's \<times> jsnum option" where
  "bars_loop emit dataArray bufferLength destBars destPart maxMinValue outMaxValue x i out sz =
     (if x < destBars then
        let (i, avg) = run_loop dataArray bufferLength destPart 0 i (Fin 0);
            avg = js_floor (js_div avg destPart);
            value = avg;
            percent = js_div value maxMinValue;
            size = js_floor (js_mul outMaxValue percent);
            out = emit size percent x i out
        in if i \<ge> bufferLength then (x, i, out, Some size)
           else bars_loop emit dataArray bufferLength destBars destPart maxMinValue outMaxValue
                  (x + 1) i out (Some size)
      else (x, i, out, sz))"
  by pat_completeness auto
termination
  by (relation "measure (\<lambda>(emit, dataArray, bufferLength, destBars, destPart, maxMinValue,
                            outMaxValue, x, i, out, sz). destBars - x)") auto

declare run_loop.simps [simp del] bars_loop.simps [simp del]

text \<open>
  Lines 403-414 and 469-482: what is left after the outer loop is summed and emitted as
  one more bucket, after \<^verbatim>\<open>x++\<close>. The divisor is \<^verbatim>\<open>destPart\<close> again.
\<close>

definition rest_bucket ::
  "'s emit \<Rightarrow> int list \<Rightarrow> nat \<Rightarrow> jsnum \<Rightarrow> jsnum \<Rightarrow> jsnum \<Rightarrow>
   nat \<times> nat \<times> 's \<times> jsnum option \<Rightarrow> 's \<times> jsnum option" where
  "rest_bucket emit dataArray bufferLength destPart maxMinValue outMaxValue st =
     (case st of (x, i, out, sz) \<Rightarrow>
        if i < bufferLength then
          let x = x + 1;
              avg = fold (\<lambda>i avg. js_add avg (elem dataArray i)) [i..<bufferLength] (Fin 0);
              i = bufferLength;
              avg = js_floor (js_div avg destPart);
              value = avg;
              percent = js_div value maxMinValue;
              size = js_floor (js_mul outMaxValue percent)
          in (emit size percent x i out, Some size)
        else (out, sz))"

text \<open>Lines 375-415 and 438-483: the body shared by the two functions.\<close>

definition resample ::
  "'s emit \<Rightarrow> int list \<Rightarrow> nat \<Rightarrow> nat \<Rightarrow> jsnum \<Rightarrow> jsnum \<Rightarrow> 's \<times> jsnum option \<Rightarrow> 's \<times> jsnum option" where
  "resample emit dataArray bufferLength resultSlots maxMinValue outMaxValue st =
     (if bufferLength = resultSlots then
        direct_loop emit dataArray bufferLength maxMinValue outMaxValue st
      else
        let destBars = resultSlots;
            destPart = js_round (js_div (Fin (of_nat bufferLength)) (Fin (of_nat destBars)))
        in rest_bucket emit dataArray bufferLength destPart maxMinValue outMaxValue
             (bars_loop emit dataArray bufferLength destBars destPart maxMinValue outMaxValue
                0 0 (fst st) (snd st)))"

text \<open>
  \<^verbatim>\<open>getAvgData\<close> (lines 371-417). Its first statement is
  \<^verbatim>\<open>normalizeValue = normalizeValue || 256;\<close>: the right-hand side reads the global
  \<^verbatim>\<open>normalizeValue\<close>. The parameters \<^verbatim>\<open>maxMinValue\<close> and \<^verbatim>\<open>outMaxValue\<close> are used as
  they were passed. The result is the array \<^verbatim>\<open>res\<close> and the global object afterwards.
\<close>

definition push :: "jsnum list emit" where
  "push v percent x i res = res @ [v]"

definition getAvgData ::
  "globals \<Rightarrow> int list \<Rightarrow> nat \<Rightarrow> nat \<Rightarrow> jsnum option \<Rightarrow> jsnum option \<Rightarrow>
   error + (jsnum list \<times> globals)" where
  "getAvgData g dataArray bufferLength resultSlots maxMinValue outMaxValue =
     (case normalizeValue g of
        None \<Rightarrow> Inl ReferenceError
      | Some v \<Rightarrow>
          let g = g\<lparr>normalizeValue := Some (if js_truthy v then v else Fin 256)\<rparr>;
              (res, sz) = resample push dataArray bufferLength resultSlots
                            (to_number maxMinValue) (to_number outMaxValue) ([], size_global g)
          in Inr (res, g\<lparr>size_global := sz\<rparr>))"

text \<open>
  \<^verbatim>\<open>eachAvgData\<close> (lines 433-485). Lines 434-435 are
  \<^verbatim>\<open>maxMinValue = maxMinValue || 256; outMaxValue = outMaxValue || maxMinValue;\<close>.
  The callback is optional; it is given the state \<open>s\<close> it works on. The result is the
  returned array \<^verbatim>\<open>res\<close>, which stays empty, the callback's state and the global object.
\<close>

definition or_default :: "jsnum option \<Rightarrow> jsnum \<Rightarrow> jsnum" where
  "or_default v d = (case v of None \<Rightarrow> d | Some a \<Rightarrow> if js_truthy a then a else d)"

definition eachAvgData ::
  "globals \<Rightarrow> int list \<Rightarrow> nat \<Rightarrow> nat \<Rightarrow> jsnum option \<Rightarrow> jsnum option \<Rightarrow> 's emit option \<Rightarrow> 's \<Rightarrow>
   jsnum list \<times> 's \<times> globals" where
  "eachAvgData g dataArray bufferLength resultSlots maxMinValue outMaxValue callback s =
     (let maxMinValue = or_default maxMinValue (Fin 256);
          outMaxValue = or_default outMaxValue maxMinValue;
          res = [];
          emit = (case callback of None \<Rightarrow> (\<lambda>v percent x i s. s) | Some f \<Rightarrow> f);
          (s, sz) = resample emit dataArray bufferLength resultSlots maxMinValue outMaxValue
                      (s, size_global g)
      in (res, s, g\<lparr>size_global := sz\<rparr>))"

text \<open>A callback that records the arguments of every call, in order.\<close>

definition record_call :: "(jsnum \<times> jsnum \<times> nat \<times> nat) list emit" where
  "record_call v percent x i calls = calls @ [(v, percent, x, i)]"

section \<open>Notation for the statements about resampling\<close>

text \<open>
  Names for the expressions the code evaluates for a bucket, so that the theorems can
  speak of them: \<^verbatim>\<open>Math.floor(avg / destPart)\<close> for a run whose samples add up to \<open>s\<close>
  (lines 395, 409), its \<^verbatim>\<open>percent = value / maxMinValue\<close> and its
  \<^verbatim>\<open>size = Math.floor(outMaxValue * percent)\<close> (lines 397-398, 411-412); and the sum of
  the \<open>d\<close> samples from index \<open>i\<close> on.
\<close>

definition run_mean :: "nat \<Rightarrow> int \<Rightarrow> jsnum" where
  "run_mean destPart s = js_floor (js_div (Fin (of_int s)) (Fin (of_nat destPart)))"

definition percent_of :: "jsnum \<Rightarrow> jsnum \<Rightarrow> jsnum" where
  "percent_of maxMinValue value = js_div value maxMinValue"

definition size_of :: "jsnum \<Rightarrow> jsnum \<Rightarrow> jsnum \<Rightarrow> jsnum" where
  "size_of maxMinValue outMaxValue value = js_floor (js_mul outMaxValue (js_div value maxMinValue))"

definition run_sum :: "int list \<Rightarrow> nat \<Rightarrow> nat \<Rightarrow> int" where
  "run_sum dataArray i d = sum_list (take d (drop i dataArray))"

text \<open>
  The sum of the magnitudes of the samples. While it stays within \<open>2^53\<close>, every partial
  sum of the samples is an integer that a double holds exactly.
\<close>

definition abs_sum :: "int list \<Rightarrow> int" where
  "abs_sum xs = sum_list (map abs xs)"

text \<open>
  What the statement \<open>emit\<close> is applied to for the \<open>j\<close>-th full run of \<open>d\<close> samples
  (lines 395-399), and for what is left after \<open>b\<close> full runs (lines 404-413).
\<close>

definition bar_call :: "'s emit \<Rightarrow> int list \<Rightarrow> nat \<Rightarrow> jsnum \<Rightarrow> jsnum \<Rightarrow> nat \<Rightarrow> 's \<Rightarrow> 's" where
  "bar_call emit dataArray d mm om j =
     emit (size_of mm om (run_mean d (run_sum dataArray (j * d) d)))
          (percent_of mm (run_mean d (run_sum dataArray (j * d) d))) j ((j + 1) * d)"

definition rest_call :: "'s emit \<Rightarrow> int list \<Rightarrow> nat \<Rightarrow> nat \<Rightarrow> nat \<Rightarrow> jsnum \<Rightarrow> jsnum \<Rightarrow> 's \<Rightarrow> 's" where
  "rest_call emit dataArray n b d mm om =
     emit (size_of mm om (run_mean d (run_sum dataArray (b * d) (n - b * d))))
          (percent_of mm (run_mean d (run_sum dataArray (b * d) (n - b * d)))) (b + 1) n"

text \<open>
  The nominal run size \<^verbatim>\<open>Math.round(bufferLength / destBars)\<close> (lines 385, 450), as the
  code computes it, read as a natural number.
\<close>

definition nominal_run :: "nat \<Rightarrow> nat \<Rightarrow> nat" where
  "nominal_run bufferLength resultSlots =
     nat_of_jsnum (js_round (js_div (Fin (of_nat bufferLength)) (Fin (of_nat resultSlots))))"

section \<open>Concrete analysers and inputs\<close>

text \<open>
  The states and inputs at which the theorems below are evaluated. \<open>new_analyser\<close> is
  constructed where the audio context has no \<^verbatim>\<open>createAnalyser\<close>, with the
  \<^verbatim>\<open>allowFakeData\<close> argument \<^verbatim>\<open>false\<close>.
\<close>

definition new_analyser :: SoundAnalyser where
  "new_analyser = SoundAnalyser_new False False (Bool False)"

definition registry_121 :: SoundAnalyser where
  "registry_121 =
     addBitmapSoundAnalyse (addBitmapSoundAnalyse (addBitmapSoundAnalyse new_analyser 1) 2) 1"

text \<open>An analyser set to 32 samples, with the default decibel range \<open>-150 .. 10\<close>, playing.\<close>

definition playing_32 :: SoundAnalyser where
  "playing_32 = (set_fastFourierTransform new_analyser (Num (Fin 32)))\<lparr>isPlaying := True\<rparr>"

text \<open>The same with the decibel range set to \<open>100 .. 110\<close>.\<close>

definition analyser_100_110 :: SoundAnalyser where
  "analyser_100_110 = set_maxDecibels (set_minDecibels playing_32 (Num (Fin 100))) (Num (Fin 110))"

text \<open>Two random generators: one alternates between the two bounds, one always draws 105.\<close>

definition draw_bounds :: "jsnum \<Rightarrow> jsnum \<Rightarrow> nat \<Rightarrow> int" where
  "draw_bounds lo hi k = (if even k then - 150 else 10)"

definition draw_105 :: "jsnum \<Rightarrow> jsnum \<Rightarrow> nat \<Rightarrow> int" where
  "draw_105 lo hi k = 105"

definition no_readings :: readings where
  "no_readings = \<lparr>byteFrequencyData = [], byteTimeDomainData = [],
                   leftFrequencyData = [], rightFrequencyData = []\<rparr>"

text \<open>The frame an update dispatched, if it dispatched one.\<close>

definition dispatched :: "error + (SoundAnalyser \<times> (frame \<times> nat list) option) \<Rightarrow> frame option" where
  "dispatched r = (case r of Inr (this, Some (fr, consumers)) \<Rightarrow> Some fr | _ \<Rightarrow> None)"

text \<open>Global objects: a fresh one, and one in which \<^verbatim>\<open>normalizeValue\<close> happens to be bound.\<close>

definition fresh_globals :: globals where
  "fresh_globals = \<lparr>normalizeValue = None, size_global = None\<rparr>"

definition bound_globals :: globals where
  "bound_globals = \<lparr>normalizeValue = Some (Fin 256), size_global = None\<rparr>"



section \<open>Properties of the rounding\<close>

text \<open>
  The binary exponent is what its name says; an integer of magnitude up to \<open>2^53\<close> is a
  double, so rounding leaves it alone; and the quotient of two integers below \<open>2^53\<close>,
  rounded to a double, still has the floor of the exact quotient.
\<close>

lemma powi2_less_imp: "(2::rat) powi m < 2 powi n \<Longrightarrow> m < n"
proof (rule ccontr)
  assume a: "(2::rat) powi m < 2 powi n" and "\<not> m < n"
  then have "n \<le> m" by simp
  then have "(2::rat) powi n \<le> 2 powi m" by (intro power_int_increasing) simp_all
  then show False using a by simp
qed

lemma powi2_le_imp: "(2::rat) powi m \<le> 2 powi n \<Longrightarrow> m \<le> n"
proof (rule ccontr)
  assume a: "(2::rat) powi m \<le> 2 powi n" and "\<not> m \<le> n"
  then have "n < m" by simp
  then have "(2::rat) powi n < 2 powi m" by (intro power_int_strict_increasing) simp_all
  then show False using a by simp
qed

lemma bitlen_powi:
  assumes "0 < p"
  shows "(2::rat) powi (bitlen p - 1) \<le> of_int p \<and> of_int p < (2::rat) powi (bitlen p)"
proof -
  have b: "2 ^ nat (bitlen p - 1) \<le> p \<and> p < 2 ^ nat (bitlen p)"
    using bitlen_bounds [OF assms] .
  have ge1: "1 \<le> bitlen p"
  proof (rule ccontr)
    assume "\<not> 1 \<le> bitlen p"
    then have "bitlen p \<le> 0" by simp
    then have "nat (bitlen p) = 0" by simp
    then show False using b assms by simp
  qed
  have "rat_of_int (2 ^ nat (bitlen p - 1)) \<le> rat_of_int p"
    using b by (simp only: of_int_le_iff)
  moreover have "rat_of_int p < rat_of_int (2 ^ nat (bitlen p))"
    using b by (simp only: of_int_less_iff)
  ultimately show ?thesis
    using ge1 by (simp add: power_int_def)
qed

lemma ilog2_bounds:
  assumes "x \<noteq> 0"
  shows "2 powi (ilog2 x) \<le> \<bar>x\<bar> \<and> \<bar>x\<bar> < 2 powi (ilog2 x + 1)"
proof -
  obtain p q where pq: "quotient_of \<bar>x\<bar> = (p, q)" by (cases "quotient_of \<bar>x\<bar>")
  have q: "0 < q" using quotient_of_denom_pos [OF pq] .
  have x: "\<bar>x\<bar> = of_int p / of_int q" using quotient_of_div [OF pq] .
  have "0 < \<bar>x\<bar>" using assms by simp
  then have "0 < rat_of_int p" using x q by (simp add: zero_less_divide_iff)
  then have p: "0 < p" by simp
  let ?a = "bitlen p" and ?b = "bitlen q"
  have pa: "(2::rat) powi (?a - 1) \<le> of_int p" "of_int p < (2::rat) powi ?a"
    using bitlen_powi [OF p] by simp_all
  have qb: "(2::rat) powi (?b - 1) \<le> of_int q" "of_int q < (2::rat) powi ?b"
    using bitlen_powi [OF q] by simp_all
  have qpos: "0 < rat_of_int q" using q by simp
  have up: "\<bar>x\<bar> < 2 powi (?a - ?b + 1)"
  proof -
    have "rat_of_int p < 2 powi ?a" by (rule pa(2))
    also have "\<dots> = 2 powi (?a - ?b + 1) * 2 powi (?b - 1)"
      by (simp flip: power_int_add)
    also have "\<dots> \<le> 2 powi (?a - ?b + 1) * of_int q"
      using qb(1) by (intro mult_left_mono) simp_all
    finally show ?thesis using qpos by (simp add: x pos_divide_less_eq)
  qed
  have lo: "2 powi (?a - ?b - 1) < \<bar>x\<bar>"
  proof -
    have "2 powi (?a - ?b - 1) * rat_of_int q < 2 powi (?a - ?b - 1) * 2 powi ?b"
      using qb(2) by (intro mult_strict_left_mono) simp_all
    also have "\<dots> = 2 powi (?a - 1)"
      by (simp flip: power_int_add)
    also have "\<dots> \<le> of_int p" by (rule pa(1))
    finally show ?thesis using qpos by (simp add: x pos_less_divide_eq)
  qed
  show ?thesis
  proof (cases "2 powi (?a - ?b) \<le> \<bar>x\<bar>")
    case True
    then have "ilog2 x = ?a - ?b" by (simp add: ilog2_def pq)
    then show ?thesis using True up by simp
  next
    case False
    then have "ilog2 x = ?a - ?b - 1" by (simp add: ilog2_def pq)
    then show ?thesis using False lo by simp
  qed
qed

lemma ilog2_less: "x \<noteq> 0 \<Longrightarrow> \<bar>x\<bar> < 2 powi k \<Longrightarrow> ilog2 x < k"
  using ilog2_bounds [of x] powi2_less_imp [of "ilog2 x" k] by simp

lemma ilog2_ge: "x \<noteq> 0 \<Longrightarrow> 2 powi k \<le> \<bar>x\<bar> \<Longrightarrow> k \<le> ilog2 x"
  using ilog2_bounds [of x] powi2_less_imp [of k "ilog2 x + 1"] by simp

lemma round_half_even_cases:
  "round_half_even t = \<lfloor>t\<rfloor> \<or> (round_half_even t = \<lfloor>t\<rfloor> + 1 \<and> 1 / 2 \<le> t - of_int \<lfloor>t\<rfloor>)"
  by (auto simp: round_half_even_def Let_def)

lemma round_half_even_int [simp]: "round_half_even (of_int k) = k"
  by (simp add: round_half_even_def)

lemma round_half_even_ge: "of_int a \<le> t \<Longrightarrow> a \<le> round_half_even t"
proof -
  assume "of_int a \<le> t"
  then have "a \<le> \<lfloor>t\<rfloor>" by (simp add: le_floor_iff)
  then show ?thesis using round_half_even_cases [of t] by auto
qed

lemma round_half_even_le: "t \<le> of_int b \<Longrightarrow> round_half_even t \<le> b"
proof -
  assume b: "t \<le> of_int b"
  have fl: "\<lfloor>t\<rfloor> \<le> b" using b by (simp add: floor_le_iff)
  show ?thesis
  proof (cases "round_half_even t = \<lfloor>t\<rfloor>")
    case True
    then show ?thesis using fl by simp
  next
    case False
    then have r: "round_half_even t = \<lfloor>t\<rfloor> + 1" and d: "1 / 2 \<le> t - of_int \<lfloor>t\<rfloor>"
      using round_half_even_cases [of t] by auto
    have "of_int \<lfloor>t\<rfloor> < t" using d by linarith
    then have "rat_of_int \<lfloor>t\<rfloor> < of_int b" using b by linarith
    then have "\<lfloor>t\<rfloor> < b" by simp
    then show ?thesis using r by simp
  qed
qed

lemma round_half_even_near: "of_int b - t > 1 / 2 \<Longrightarrow> round_half_even t < b"
proof -
  assume g: "of_int b - t > 1 / 2"
  have "t < of_int b" using g by linarith
  then have fl: "\<lfloor>t\<rfloor> < b" by (simp add: floor_less_iff)
  show ?thesis
  proof (cases "round_half_even t = \<lfloor>t\<rfloor>")
    case True
    then show ?thesis using fl by simp
  next
    case False
    then have r: "round_half_even t = \<lfloor>t\<rfloor> + 1" and d: "1 / 2 \<le> t - of_int \<lfloor>t\<rfloor>"
      using round_half_even_cases [of t] by auto
    have "rat_of_int \<lfloor>t\<rfloor> + 1 < of_int b" using g d by linarith
    then have "rat_of_int (\<lfloor>t\<rfloor> + 1) < of_int b" by simp
    then have "\<lfloor>t\<rfloor> + 1 < b" by (simp only: of_int_less_iff)
    then show ?thesis using r by simp
  qed
qed

lemma round_double_unfold:
  assumes "x \<noteq> 0" "ilog2 x < 1023"
  shows "round_double x =
     Fin (of_int (round_half_even (x / 2 powi (max (ilog2 x) (- 1022) - 52))) *
          2 powi (max (ilog2 x) (- 1022) - 52))"
proof -
  define e where "e = max (ilog2 x) (- 1022)"
  have "e < 1023" using assms(2) by (simp add: e_def)
  then have "\<not> (1023 < e \<or> (e = 1023 \<and> 2 ^ 53 \<le> \<bar>round_half_even (x / 2 powi (e - 52))\<bar>))"
    by linarith
  then have "round_double x = Fin (of_int (round_half_even (x / 2 powi (e - 52))) * 2 powi (e - 52))"
    using assms(1) unfolding round_double_def Let_def e_def [symmetric] by (simp only: if_False)
  then show ?thesis by (simp only: e_def)
qed

lemma round_double_exactI:
  assumes "x \<noteq> 0" "ilog2 x < 1023"
    and "x / 2 powi (max (ilog2 x) (- 1022) - 52) = of_int k"
  shows "round_double x = Fin x"
proof -
  define q :: rat where "q = 2 powi (max (ilog2 x) (- 1022) - 52)"
  have q: "q \<noteq> 0" by (simp add: q_def)
  have xq: "x / q = of_int k" using assms(3) by (simp only: q_def)
  then have "of_int (round_half_even (x / q)) * q = x"
    using q by (simp add: field_simps)
  then show ?thesis
    using round_double_unfold [OF assms(1,2)] by (simp only: q_def [symmetric])
qed

lemma round_double_int:
  assumes "\<bar>n\<bar> \<le> 2 ^ 53"
  shows "round_double (of_int n) = Fin (of_int n)"
proof (cases "n = 0")
  case True
  then show ?thesis by (simp add: round_double_def)
next
  case False
  let ?x = "rat_of_int n"
  have x0: "?x \<noteq> 0" using False by simp
  have "1 \<le> \<bar>n\<bar>" using False by simp
  then have "1 \<le> \<bar>?x\<bar>" by (simp flip: of_int_abs)
  then have lo: "0 \<le> ilog2 ?x" using ilog2_ge [OF x0, of 0] by simp
  have "rat_of_int \<bar>n\<bar> \<le> rat_of_int (2 ^ 53)" using assms by (simp only: of_int_le_iff)
  then have ub: "\<bar>?x\<bar> \<le> 2 ^ 53" by simp
  then have "\<bar>?x\<bar> < 2 powi 54" by simp
  then have hi: "ilog2 ?x < 54" using ilog2_less [OF x0] by simp
  have mx: "max (ilog2 ?x) (- 1022) = ilog2 ?x" using lo by simp
  show ?thesis
  proof (cases "ilog2 ?x = 53")
    case True
    have "2 powi 53 \<le> \<bar>?x\<bar>" using ilog2_bounds [OF x0] True by simp
    then have "\<bar>?x\<bar> = 2 ^ 53" using ub by simp
    then have "\<bar>n\<bar> = 2 ^ 53" by (simp flip: of_int_abs)
    then have n: "n = 2 ^ 53 \<or> n = - (2 ^ 53)" by linarith
    have ex: "?x / 2 powi (max (ilog2 ?x) (- 1022) - 52) = of_int (n div 2)"
      using n by (auto simp: mx True)
    show ?thesis using round_double_exactI [OF x0 _ ex] hi by simp
  next
    case False
    then have le: "ilog2 ?x \<le> 52" using hi by simp
    have "(2::rat) powi (ilog2 ?x - 52) = 1 / 2 ^ nat (52 - ilog2 ?x)"
      using le power_int_minus_divide [of "2::rat" "52 - ilog2 ?x"] by (simp add: power_int_def)
    then have ex: "?x / 2 powi (max (ilog2 ?x) (- 1022) - 52) = of_int (n * 2 ^ nat (52 - ilog2 ?x))"
      by (simp add: mx)
    show ?thesis using round_double_exactI [OF x0 _ ex] hi by simp
  qed
qed

lemma round_double_nonneg:
  assumes "0 < x" "x < 2 powi 1023"
  shows "\<exists>y. round_double x = Fin y \<and> 0 \<le> y"
proof -
  define q :: rat where "q = 2 powi (max (ilog2 x) (- 1022) - 52)"
  have q: "0 < q" by (simp add: q_def)
  have x0: "x \<noteq> 0" using assms(1) by simp
  have il: "ilog2 x < 1023" using ilog2_less [OF x0, of 1023] assms by simp
  have "0 \<le> x / q" using assms(1) q by simp
  then have "0 \<le> round_half_even (x / q)" using round_half_even_ge [of 0 "x / q"] by simp
  then have "0 \<le> rat_of_int (round_half_even (x / q)) * q" using q by simp
  moreover have "round_double x = Fin (of_int (round_half_even (x / q)) * q)"
    using round_double_unfold [OF x0 il] by (simp only: q_def [symmetric])
  ultimately show ?thesis by blast
qed

lemma floor_round_double_div:
  fixes s n :: int
  assumes n: "0 < n" "n \<le> 2 ^ 53" and s: "\<bar>s\<bar> < 2 ^ 53"
  shows "\<exists>y. round_double (of_int s / of_int n) = Fin y \<and> \<lfloor>y\<rfloor> = s div n"
proof (cases "s = 0")
  case True
  then show ?thesis by (simp add: round_double_def)
next
  case False
  let ?x = "rat_of_int s / rat_of_int n"
  let ?k = "s div n"
  have npos: "0 < rat_of_int n" using n(1) by simp
  have x0: "?x \<noteq> 0" using False n(1) by simp
  have absx: "\<bar>?x\<bar> = rat_of_int \<bar>s\<bar> / rat_of_int n" using npos by (simp add: abs_divide)
  have s1: "1 \<le> rat_of_int \<bar>s\<bar>" using False by (simp flip: of_int_abs)
  have s53: "rat_of_int \<bar>s\<bar> < 2 ^ 53"
  proof -
    have "rat_of_int \<bar>s\<bar> < rat_of_int (2 ^ 53)" using s by (simp only: of_int_less_iff)
    then show ?thesis by simp
  qed
  have n1: "1 \<le> rat_of_int n" using n(1) by simp
  have n53: "rat_of_int n \<le> 2 ^ 53"
  proof -
    have "rat_of_int n \<le> rat_of_int (2 ^ 53)" using n(2) by (simp only: of_int_le_iff)
    then show ?thesis by simp
  qed
  \<comment> \<open>the exponent lies between -53 and 52\<close>
  have "\<bar>?x\<bar> \<le> rat_of_int \<bar>s\<bar>" using n1 s1 by (simp add: absx pos_divide_le_eq mult_le_cancel_left1)
  then have "\<bar>?x\<bar> < 2 powi 53" using s53 by simp
  then have hi: "ilog2 ?x < 53" using ilog2_less [OF x0] by simp
  have "1 / 2 ^ 53 \<le> 1 / rat_of_int n" using n53 npos by (simp add: frac_le)
  also have "\<dots> \<le> \<bar>?x\<bar>" using s1 npos by (simp add: absx divide_right_mono)
  finally have "2 powi (- 53) \<le> \<bar>?x\<bar>" by (simp add: power_int_minus_divide)
  then have lo: "- 53 \<le> ilog2 ?x" using ilog2_ge [OF x0] by simp
  let ?e = "ilog2 ?x"
  have mx: "max ?e (- 1022) = ?e" using lo by simp
  define j where "j = nat (52 - ?e)"
  define Q :: int where "Q = 2 ^ j"
  have Qpos: "0 < Q" by (simp add: Q_def)
  have q: "(2::rat) powi (?e - 52) = 1 / of_int Q"
    using hi power_int_minus_divide [of "2::rat" "52 - ?e"] by (simp add: power_int_def Q_def j_def)
  let ?t = "?x * of_int Q"
  let ?r = "round_half_even ?t"
  have rd: "round_double ?x = Fin (of_int ?r / of_int Q)"
    using round_double_unfold [OF x0, unfolded mx q] hi by simp
  \<comment> \<open>the quotient lies between k and k + 1, at least 1 / n below k + 1\<close>
  have fl: "\<lfloor>?x\<rfloor> = ?k" by (rule floor_divide_of_int_eq)
  have kle: "rat_of_int ?k \<le> ?x" using fl of_int_floor_le [of ?x] by simp
  have "s < (?k + 1) * n"
    using n(1) by (metis add.commute div_mult_mod_eq mult.commute pos_mod_bound
        add_strict_left_mono distrib_left mult.right_neutral)
  then have "1 \<le> (?k + 1) * n - s" by simp
  then have "rat_of_int 1 \<le> rat_of_int ((?k + 1) * n - s)" by (simp only: of_int_le_iff)
  then have gap: "1 / rat_of_int n \<le> rat_of_int (?k + 1) - ?x"
    using npos by (simp add: field_simps)
  \<comment> \<open>half a quantum is less than 1 / n\<close>
  have "2 powi ?e * rat_of_int n \<le> \<bar>?x\<bar> * rat_of_int n"
    using ilog2_bounds [OF x0] npos by (intro mult_right_mono) simp_all
  also have "\<dots> = rat_of_int \<bar>s\<bar>" using npos by (simp add: absx)
  also have "\<dots> < 2 powi ?e * 2 powi (53 - ?e)"
    using s53 by (simp flip: power_int_add)
  finally have "rat_of_int n < 2 powi (53 - ?e)" by simp
  also have "(2::rat) powi (53 - ?e) = 2 * of_int Q"
  proof -
    have ej: "53 - ?e = 1 + int j" using hi by (simp add: j_def)
    have "(2::rat) powi (1 + int j) = 2 powi 1 * 2 powi (int j)"
      by (rule power_int_add) simp
    then show ?thesis unfolding ej by (simp add: Q_def)
  qed
  finally have nQ: "rat_of_int n < 2 * of_int Q" .
  have "1 / 2 < rat_of_int Q / rat_of_int n" using nQ npos by (simp add: field_simps)
  also have "rat_of_int Q / rat_of_int n = 1 / rat_of_int n * of_int Q" by simp
  also have "\<dots> \<le> (rat_of_int (?k + 1) - ?x) * of_int Q"
    using gap Qpos by (intro mult_right_mono) simp_all
  finally have near: "1 / 2 < rat_of_int ((?k + 1) * Q) - ?t" by (simp add: algebra_simps)
  have up: "?r < (?k + 1) * Q" using round_half_even_near [OF near] .
  have "rat_of_int ?k * rat_of_int Q \<le> ?t" using kle Qpos by (intro mult_right_mono) simp_all
  then have "rat_of_int (?k * Q) \<le> ?t" by simp
  then have dn: "?k * Q \<le> ?r" by (rule round_half_even_ge)
  have Qr: "0 < rat_of_int Q" using Qpos by simp
  have "rat_of_int (?k * Q) \<le> rat_of_int ?r" using dn by (simp only: of_int_le_iff)
  then have a: "rat_of_int ?k \<le> of_int ?r / of_int Q" using Qr by (simp add: pos_le_divide_eq)
  have "rat_of_int ?r < rat_of_int ((?k + 1) * Q)" using up by (simp only: of_int_less_iff)
  then have b: "of_int ?r / of_int Q < rat_of_int ?k + 1" using Qr by (simp add: pos_divide_less_eq)
  have "\<lfloor>rat_of_int ?r / rat_of_int Q\<rfloor> = ?k" using a b by (simp add: floor_eq_iff)
  then show ?thesis using rd by simp
qed

section \<open>Properties of the averaging\<close>

lemma floor_rat_numeral [simp]:
  "\<lfloor>numeral a / numeral b :: rat\<rfloor> = numeral a div numeral b"
  using floor_divide_of_int_eq [of "numeral a" "numeral b", where ?'a = rat] by simp

lemma js_add_int:
  "\<bar>a + b\<bar> \<le> 2 ^ 53 \<Longrightarrow> js_add (Fin (of_int a)) (Fin (of_int b)) = Fin (of_int (a + b))"
  using round_double_int [of "a + b"] by simp

lemma abs_sum_nonneg: "0 \<le> abs_sum xs"
  by (induction xs) (simp_all add: abs_sum_def)

lemma abs_sum_append: "abs_sum (xs @ ys) = abs_sum xs + abs_sum ys"
  by (simp add: abs_sum_def)

lemma abs_sum_Cons: "abs_sum (x # xs) = \<bar>x\<bar> + abs_sum xs"
  by (simp add: abs_sum_def)

lemma sum_list_le_abs_sum: "\<bar>sum_list xs\<bar> \<le> abs_sum xs"
  unfolding abs_sum_def by (rule sum_list_abs)

lemma abs_sum_segment:
  "i + m \<le> n \<Longrightarrow> abs_sum (take m (drop i xs)) \<le> abs_sum (take n xs)"
proof -
  assume le: "i + m \<le> n"
  have "take n xs = take (i + m) xs @ take (n - (i + m)) (drop (i + m) xs)"
    using le take_add [of "i + m" "n - (i + m)" xs] by simp
  moreover have "take (i + m) xs = take i xs @ take m (drop i xs)"
    by (rule take_add)
  ultimately have "abs_sum (take n xs) =
      abs_sum (take i xs) + abs_sum (take m (drop i xs)) +
      abs_sum (take (n - (i + m)) (drop (i + m) xs))"
    by (simp add: abs_sum_append)
  then show ?thesis
    using abs_sum_nonneg [of "take i xs"] abs_sum_nonneg [of "take (n - (i + m)) (drop (i + m) xs)"]
    by linarith
qed

lemma fold_js_add_elem:
  "j \<le> length xs \<Longrightarrow> \<bar>a\<bar> + abs_sum (drop i (take j xs)) \<le> 2 ^ 53 \<Longrightarrow>
   fold (\<lambda>t acc. js_add acc (elem xs t)) [i..<j] (Fin (of_int a)) =
   Fin (of_int (a + sum_list (drop i (take j xs))))"
proof (induction j)
  case 0
  then show ?case by simp
next
  case (Suc j)
  show ?case
  proof (cases "i \<le> j")
    case True
    have lt: "j < length xs" using Suc.prems by simp
    have tk: "take (Suc j) xs = take j xs @ [xs ! j]"
      using lt by (simp add: take_Suc_conv_app_nth)
    have len: "i \<le> length (take j xs)" using True lt by simp
    have dr: "drop i (take (Suc j) xs) = drop i (take j xs) @ [xs ! j]"
      using len by (simp add: tk)
    have b: "\<bar>a\<bar> + abs_sum (drop i (take j xs)) + \<bar>xs ! j\<bar> \<le> 2 ^ 53"
      using Suc.prems(2) by (simp add: dr abs_sum_append abs_sum_Cons abs_sum_def)
    have ih: "fold (\<lambda>t acc. js_add acc (elem xs t)) [i..<j] (Fin (of_int a)) =
        Fin (of_int (a + sum_list (drop i (take j xs))))"
      using Suc.IH lt b by simp
    have "\<bar>a + sum_list (drop i (take j xs)) + xs ! j\<bar> \<le> 2 ^ 53"
      using b sum_list_le_abs_sum [of "drop i (take j xs)"] by linarith
    then have "js_add (Fin (of_int (a + sum_list (drop i (take j xs))))) (Fin (of_int (xs ! j))) =
        Fin (of_int (a + sum_list (drop i (take j xs)) + xs ! j))"
      by (rule js_add_int)
    then show ?thesis
      using ih lt True by (simp add: elem_def dr add.assoc)
  next
    case False
    then show ?thesis by simp
  qed
qed

lemma getAvg_eq:
  assumes "abs_sum xs \<le> 2 ^ 53"
  shows "getAvg xs = js_floor (js_div (Fin (of_int (sum_list xs))) (Fin (of_nat (length xs))))"
  using fold_js_add_elem [of "length xs" xs 0 0] assms by (simp add: getAvg_def)

lemma sum_list_bounds:
  "\<forall>v\<in>set xs. (0::int) \<le> v \<and> v \<le> c \<Longrightarrow>
   0 \<le> sum_list xs \<and> sum_list xs \<le> c * int (length xs)"
  by (induction xs) (auto simp: algebra_simps)

lemma bytes_exact:
  assumes "\<forall>v\<in>set xs. 0 \<le> v \<and> v \<le> 255" "int (length xs) \<le> 2 ^ 45"
  shows "int (length xs) \<le> 2 ^ 53 \<and> abs_sum xs < 2 ^ 53"
proof -
  have "abs_sum xs = sum_list xs"
    using assms(1) unfolding abs_sum_def by (induction xs) auto
  moreover have "sum_list xs \<le> 255 * int (length xs)"
    using sum_list_bounds [OF assms(1)] by simp
  ultimately show ?thesis using assms(2) by simp
qed

text \<open>
  C10. For every non-empty data array whose sum a double holds exactly (the magnitudes of
  the elements add up to less than \<open>2^53\<close>, and the length is at most \<open>2^53\<close>; by
  \<open>bytes_exact\<close> this covers every byte array of up to \<open>2^45\<close> elements) \<^verbatim>\<open>getAvg\<close>
  returns the floor of the sum of the elements divided by the length, which is an
  integer; when every element is a byte (in 0..255) the result lies in 0..255.
\<close>

theorem getAvg_floor_mean:
  assumes nonempty: "dataArr \<noteq> []"
    and count: "int (length dataArr) \<le> 2 ^ 53"
    and exact: "abs_sum dataArr < 2 ^ 53"
  shows "getAvg dataArr = Fin (of_int (sum_list dataArr div int (length dataArr))) \<and>
         sum_list dataArr div int (length dataArr) =
           \<lfloor>rat_of_int (sum_list dataArr) / rat_of_nat (length dataArr)\<rfloor> \<and>
         ((\<forall>v\<in>set dataArr. 0 \<le> v \<and> v \<le> 255) \<longrightarrow>
            0 \<le> sum_list dataArr div int (length dataArr) \<and>
            sum_list dataArr div int (length dataArr) \<le> 255)"
proof -
  let ?n = "int (length dataArr)"
  let ?s = "sum_list dataArr"
  have pos: "0 < ?n" using nonempty by simp
  have s: "\<bar>?s\<bar> < 2 ^ 53" using exact sum_list_le_abs_sum [of dataArr] by linarith
  obtain y where y: "round_double (of_int ?s / of_int ?n) = Fin y" "\<lfloor>y\<rfloor> = ?s div ?n"
    using floor_round_double_div [OF pos count s] by blast
  have "getAvg dataArr = js_floor (js_div (Fin (of_int ?s)) (Fin (of_nat (length dataArr))))"
    using exact by (intro getAvg_eq) simp
  then have a: "getAvg dataArr = Fin (of_int (?s div ?n))"
    using pos y by simp
  have fl: "?s div ?n = \<lfloor>rat_of_int ?s / rat_of_nat (length dataArr)\<rfloor>"
    using floor_divide_of_int_eq [of ?s ?n, where ?'a = rat] by simp
  have b: "0 \<le> ?s div ?n \<and> ?s div ?n \<le> 255"
    if h: "\<forall>v\<in>set dataArr. 0 \<le> v \<and> v \<le> 255"
  proof -
    have sb: "0 \<le> ?s \<and> ?s \<le> 255 * ?n"
      using sum_list_bounds [OF h] .
    have "?s div ?n \<le> (255 * ?n) div ?n"
      using sb pos by (intro zdiv_mono1) auto
    moreover have "0 \<le> ?s div ?n"
      using sb pos by (simp add: pos_imp_zdiv_nonneg_iff)
    ultimately show ?thesis using pos by simp
  qed
  show ?thesis using a b fl by blast
qed

theorem getAvg_floor_mean_witness:
  "[200, 100, 7] \<noteq> ([]::int list) \<and> int (length [200, 100, 7::int]) \<le> 2 ^ 53 \<and>
   abs_sum [200, 100, 7] < 2 ^ 53 \<and> set [200, 100, 7] \<subseteq> {0..255::int} \<and>
   getAvg [200, 100, 7] = Fin 102 \<and>
   sum_list [200, 100, 7] div int (length [200, 100, 7::int]) = 102 \<and> (102::int) \<le> 255"
proof -
  have h1: "[200, 100, 7] \<noteq> ([]::int list)" by simp
  have h2: "int (length [200, 100, 7::int]) \<le> 2 ^ 53" by simp
  have h3: "abs_sum [200, 100, 7] < 2 ^ 53" by (simp add: abs_sum_def)
  show ?thesis
    using getAvg_floor_mean [OF h1 h2 h3] h3 by simp
qed

section \<open>Properties of the consumer registry\<close>

lemma remove_scan_eq:
  "k \<le> length arr \<Longrightarrow>
   remove_scan arr bmp k = rev (remove1 bmp (rev (take k arr))) @ drop k arr"
proof (induction k)
  case 0
  then show ?case by simp
next
  case (Suc k)
  have lt: "k < length arr" using Suc.prems by simp
  have tk: "take (Suc k) arr = take k arr @ [arr ! k]"
    using lt by (simp add: take_Suc_conv_app_nth)
  show ?case
  proof (cases "arr ! k = bmp")
    case True
    then show ?thesis by (simp add: tk)
  next
    case False
    have "remove_scan arr bmp (Suc k) = rev (remove1 bmp (rev (take k arr))) @ drop k arr"
      using False Suc.IH lt by simp
    also have "drop k arr = arr ! k # drop (Suc k) arr"
      using lt by (simp add: Cons_nth_drop_Suc)
    finally show ?thesis using False by (simp add: tk)
  qed
qed

lemma removeBitmapSoundAnalyse_eq:
  "bmpSoundAnalyze (removeBitmapSoundAnalyse this bmp) =
   rev (remove1 bmp (rev (bmpSoundAnalyze this)))"
  by (simp add: removeBitmapSoundAnalyse_def remove_scan_eq)

text \<open>
  C6, as the code has it. Removing a consumer removes exactly the last reference-equal
  occurrence in registration order (with duplicates, the one added most recently),
  changes nothing else of the analyser, leaves the analyser as it is when the consumer
  is absent, and returns the analyser.
\<close>

theorem removeBitmapSoundAnalyse_last:
  "removeBitmapSoundAnalyse this bmp =
     this\<lparr>bmpSoundAnalyze := rev (remove1 bmp (rev (bmpSoundAnalyze this)))\<rparr> \<and>
   (\<forall>ys zs. bmpSoundAnalyze this = ys @ bmp # zs \<and> bmp \<notin> set zs \<longrightarrow>
      bmpSoundAnalyze (removeBitmapSoundAnalyse this bmp) = ys @ zs) \<and>
   (bmp \<notin> set (bmpSoundAnalyze this) \<longrightarrow> removeBitmapSoundAnalyse this bmp = this)"
proof -
  have a: "removeBitmapSoundAnalyse this bmp =
      this\<lparr>bmpSoundAnalyze := rev (remove1 bmp (rev (bmpSoundAnalyze this)))\<rparr>"
    by (simp add: removeBitmapSoundAnalyse_def remove_scan_eq)
  have b: "bmpSoundAnalyze (removeBitmapSoundAnalyse this bmp) = ys @ zs"
    if "bmpSoundAnalyze this = ys @ bmp # zs" "bmp \<notin> set zs" for ys zs
    using that by (simp add: removeBitmapSoundAnalyse_eq remove1_append)
  have c: "removeBitmapSoundAnalyse this bmp = this" if "bmp \<notin> set (bmpSoundAnalyze this)"
    using that by (simp add: a remove1_idem)
  show ?thesis using a b c by blast
qed

theorem removeBitmapSoundAnalyse_last_witness:
  "bmpSoundAnalyze registry_121 = [1, 2] @ 1 # [] \<and> 1 \<notin> set ([]::nat list) \<and>
   bmpSoundAnalyze (removeBitmapSoundAnalyse registry_121 1) = [1, 2] \<and>
   3 \<notin> set (bmpSoundAnalyze registry_121) \<and>
   removeBitmapSoundAnalyse registry_121 3 = registry_121"
proof -
  have r: "bmpSoundAnalyze registry_121 = [1, 2] @ 1 # []"
    by code_simp
  have n: "3 \<notin> set (bmpSoundAnalyze registry_121)"
    by (simp add: r)
  show ?thesis
    using removeBitmapSoundAnalyse_last [of registry_121 1]
      removeBitmapSoundAnalyse_last [of registry_121 3] r n
    by simp
qed

text \<open>
  C6 as stated fails: with the registry \<open>[1, 2, 1]\<close>, removing consumer \<open>1\<close> leaves
  \<open>[1, 2]\<close>; removing the first occurrence would leave \<open>[2, 1]\<close>.
\<close>

theorem removeBitmapSoundAnalyse_first_counterexample:
  "bmpSoundAnalyze registry_121 = [1, 2, 1] \<and>
   bmpSoundAnalyze (removeBitmapSoundAnalyse registry_121 1) = [1, 2] \<and>
   bmpSoundAnalyze (removeBitmapSoundAnalyse registry_121 1) \<noteq>
     remove1 1 (bmpSoundAnalyze registry_121)"
  by code_simp

section \<open>Properties of the configuration\<close>

text \<open>No operation on a constructed analyser assigns the flag.\<close>

lemma allowFakeData_unchanged:
  "allowFakeData (set_fastFourierTransform this val) = allowFakeData this"
  "allowFakeData (set_minDecibels this val) = allowFakeData this"
  "allowFakeData (set_maxDecibels this val) = allowFakeData this"
  "allowFakeData (addBitmapSoundAnalyse this bmp) = allowFakeData this"
  "allowFakeData (removeBitmapSoundAnalyse this bmp) = allowFakeData this"
  "update r hw this = Inr (this', fr) \<Longrightarrow> allowFakeData this' = allowFakeData this"
proof -
  show "allowFakeData (set_fastFourierTransform this val) = allowFakeData this"
    by (cases val) (simp_all add: Let_def del: fft_guard.simps)
  show "allowFakeData (set_minDecibels this val) = allowFakeData this"
    by (cases val) (simp_all add: Let_def)
  show "allowFakeData (set_maxDecibels this val) = allowFakeData this"
    by (cases val) (simp_all add: Let_def)
  show "allowFakeData (addBitmapSoundAnalyse this bmp) = allowFakeData this"
    by (simp add: addBitmapSoundAnalyse_def)
  show "allowFakeData (removeBitmapSoundAnalyse this bmp) = allowFakeData this"
    by (simp add: removeBitmapSoundAnalyse_def)
  show "update r hw this = Inr (this', fr) \<Longrightarrow> allowFakeData this' = allowFakeData this"
    by (auto simp: update_def Let_def split: if_splits option.splits)
qed

text \<open>
  C8. The constructor does not look at its \<^verbatim>\<open>allowFakeData\<close> argument: constructed with
  \<^verbatim>\<open>false\<close>, or with the argument omitted, the flag is \<^verbatim>\<open>true\<close>.
\<close>

theorem allowFakeData_ignores_argument:
  "allowFakeData (SoundAnalyser_new hasCreateAnalyser hasCreateChannelSplitter (Bool False)) = True \<and>
   allowFakeData (SoundAnalyser_new hasCreateAnalyser hasCreateChannelSplitter Undefined) = True"
  by (simp add: SoundAnalyser_new_def Let_def)

text \<open>The guard of the setter lets through exactly the even integers from 32 to 2048.\<close>

lemma fft_guard_even_integer:
  "fft_guard val \<longleftrightarrow> (\<exists>n. val = Num (Fin (of_nat n)) \<and> 32 \<le> n \<and> n \<le> 2048 \<and> even n)"
proof
  assume g: "fft_guard val"
  then obtain a where val: "val = Num (Fin a)"
    by (cases val rule: fft_guard.cases) (auto elim: js_le.elims)
  have lo: "32 \<le> a" and hi: "a \<le> 2048" and m: "js_mod (Fin a) (Fin 2) = Fin 0"
    using g by (simp_all add: val del: js_mod.simps)
  have nn: "0 \<le> a / 2" using lo by simp
  have eq: "a = 2 * of_int \<lfloor>a / 2\<rfloor>" using m nn lo by simp
  let ?k = "\<lfloor>a / 2\<rfloor>"
  have kpos: "0 \<le> ?k" using nn by simp
  have "a = of_nat (nat (2 * ?k))" using eq kpos by simp
  moreover have "even (nat (2 * ?k))" using kpos by (simp add: even_nat_iff)
  moreover have "32 \<le> nat (2 * ?k)" "nat (2 * ?k) \<le> 2048"
    using lo hi eq kpos by linarith+
  ultimately show "\<exists>n. val = Num (Fin (of_nat n)) \<and> 32 \<le> n \<and> n \<le> 2048 \<and> even n"
    using val by blast
next
  assume "\<exists>n. val = Num (Fin (of_nat n)) \<and> 32 \<le> n \<and> n \<le> 2048 \<and> even n"
  then obtain n where n: "val = Num (Fin (of_nat n))" "32 \<le> n" "n \<le> 2048" "even n" by blast
  obtain k where k: "n = 2 * k" using n(4) by (auto elim: evenE)
  have "rat_of_nat n / 2 = of_nat k" by (simp add: k)
  then show "fft_guard val" using n(2,3) by (simp add: n(1) k)
qed

lemma set_fastFourierTransform_nat:
  "set_fastFourierTransform this (Num (Fin (of_nat n))) =
     (if 32 \<le> n \<and> n \<le> 2048 \<and> even n then
        (if supportAnalyse this
         then this\<lparr>priv_fastFourierTransform := n, priv_bufferLength := n,
                   analyserNode := map_option (\<lambda>node. node\<lparr>fftSize := n\<rparr>) (analyserNode this)\<rparr>
         else this\<lparr>priv_fastFourierTransform := n, priv_bufferLength := n\<rparr>)
      else this\<lparr>console := console this @ [Num (Fin (of_nat n))]\<rparr>)"
proof -
  have g: "fft_guard (Num (Fin (of_nat n))) \<longleftrightarrow> 32 \<le> n \<and> n \<le> 2048 \<and> even n"
    by (simp add: fft_guard_even_integer)
  have r: "nat \<lfloor>rat_of_nat n + 1 / 2\<rfloor> = n"
    by linarith
  show ?thesis
    using g r by (simp add: Let_def del: fft_guard.simps)
qed

text \<open>
  C2. The setter accepts 34, which is even and not a power of two: the stored size and the
  buffer length become 34 and nothing is logged. (33 is rejected: the size stays 2048
  and the value is logged.)
\<close>

theorem fastFourierTransform_accepts_34:
  "priv_fastFourierTransform (set_fastFourierTransform new_analyser (Num (Fin 34))) = 34 \<and>
   priv_bufferLength (set_fastFourierTransform new_analyser (Num (Fin 34))) = 34 \<and>
   console (set_fastFourierTransform new_analyser (Num (Fin 34))) = [] \<and>
   priv_fastFourierTransform (set_fastFourierTransform new_analyser (Num (Fin 33))) = 2048 \<and>
   console (set_fastFourierTransform new_analyser (Num (Fin 33))) = [Num (Fin 33)]"
  by code_simp

section \<open>Properties of the fake data and of the update\<close>

lemma fold_snoc_map: "fold (\<lambda>k res. res @ [f k]) ks acc = acc @ map f ks"
  by (induction ks arbitrary: acc) auto

lemma getFakeData_eq:
  "getFakeData r this =
   rev (sort (map (\<lambda>k. \<bar>r (priv_minDecibels this) (priv_maxDecibels this) k\<bar>)
                [0..<priv_bufferLength this]))"
  by (simp add: getFakeData_def fold_snoc_map)

text \<open>
  C5, as the code has it. When the generator draws within the configured bounds, the
  fake data has \<^verbatim>\<open>_bufferLength\<close> values, is sorted in descending order, and every value
  lies between 0 and the larger of \<open>|minDecibels|\<close> and \<open>|maxDecibels|\<close>; when
  \<open>minDecibels \<le> 0 \<le> maxDecibels\<close>, as with the defaults, every value is also at most
  \<open>|maxDecibels - minDecibels|\<close>.
\<close>

theorem getFakeData_range:
  assumes lo: "priv_minDecibels this = Fin lo" and hi: "priv_maxDecibels this = Fin hi"
    and draws: "\<forall>k<priv_bufferLength this.
                  lo \<le> of_int (integerInRange (Fin lo) (Fin hi) k) \<and>
                  of_int (integerInRange (Fin lo) (Fin hi) k) \<le> hi"
  shows "length (getFakeData integerInRange this) = priv_bufferLength this \<and>
         sorted_wrt (\<ge>) (getFakeData integerInRange this) \<and>
         (\<forall>v\<in>set (getFakeData integerInRange this). 0 \<le> v \<and> of_int v \<le> max \<bar>lo\<bar> \<bar>hi\<bar>) \<and>
         (lo \<le> 0 \<and> 0 \<le> hi \<longrightarrow>
            (\<forall>v\<in>set (getFakeData integerInRange this). of_int v \<le> \<bar>hi - lo\<bar>))"
proof -
  let ?fd = "getFakeData integerInRange this"
  have len: "length ?fd = priv_bufferLength this"
    by (simp add: getFakeData_eq)
  have srt: "sorted_wrt (\<ge>) ?fd"
    by (simp add: getFakeData_eq sorted_wrt_rev)
  have mem: "\<exists>k<priv_bufferLength this. v = \<bar>integerInRange (Fin lo) (Fin hi) k\<bar>"
    if "v \<in> set ?fd" for v
    using that by (auto simp: getFakeData_eq lo hi)
  have b1: "0 \<le> v \<and> rat_of_int v \<le> max \<bar>lo\<bar> \<bar>hi\<bar>" if vin: "v \<in> set ?fd" for v
  proof -
    obtain k where k: "k < priv_bufferLength this" "v = \<bar>integerInRange (Fin lo) (Fin hi) k\<bar>"
      using mem [OF vin] by blast
    have "lo \<le> of_int (integerInRange (Fin lo) (Fin hi) k) \<and>
          of_int (integerInRange (Fin lo) (Fin hi) k) \<le> hi"
      using draws k(1) by blast
    then show ?thesis unfolding k(2) by (auto simp: abs_if max_def)
  qed
  have b2: "rat_of_int v \<le> \<bar>hi - lo\<bar>" if "v \<in> set ?fd" "lo \<le> 0" "0 \<le> hi" for v
    using b1 [OF that(1)] that(2,3) by (auto simp: abs_if max_def split: if_splits)
  show ?thesis using len srt b1 b2 by blast
qed

theorem getFakeData_range_witness:
  "priv_minDecibels playing_32 = Fin (- 150) \<and> priv_maxDecibels playing_32 = Fin 10 \<and>
   priv_bufferLength playing_32 = 32 \<and>
   draw_bounds (Fin (- 150)) (Fin 10) 0 = - 150 \<and> draw_bounds (Fin (- 150)) (Fin 10) 1 = 10 \<and>
   length (getFakeData draw_bounds playing_32) = 32 \<and>
   sorted_wrt (\<ge>) (getFakeData draw_bounds playing_32) \<and>
   set (getFakeData draw_bounds playing_32) \<subseteq> {0..150}"
proof -
  have lo: "priv_minDecibels playing_32 = Fin (- 150)" by code_simp
  have hi: "priv_maxDecibels playing_32 = Fin 10" by code_simp
  have n: "priv_bufferLength playing_32 = 32" by code_simp
  have draws: "\<forall>k<priv_bufferLength playing_32.
      - 150 \<le> rat_of_int (draw_bounds (Fin (- 150)) (Fin 10) k) \<and>
      rat_of_int (draw_bounds (Fin (- 150)) (Fin 10) k) \<le> 10"
    by (simp add: draw_bounds_def)
  have range: "length (getFakeData draw_bounds playing_32) = 32 \<and>
      sorted_wrt (\<ge>) (getFakeData draw_bounds playing_32) \<and>
      (\<forall>v\<in>set (getFakeData draw_bounds playing_32). 0 \<le> v \<and> rat_of_int v \<le> 150)"
    using getFakeData_range [of playing_32 "- 150" 10 draw_bounds, OF lo hi draws] n by simp
  have sub: "set (getFakeData draw_bounds playing_32) \<subseteq> {0..150}"
  proof
    fix v
    assume "v \<in> set (getFakeData draw_bounds playing_32)"
    then have "0 \<le> v \<and> rat_of_int v \<le> 150" using range by blast
    then show "v \<in> {0..150}" by simp
  qed
  show ?thesis using lo hi n range sub by (simp add: draw_bounds_def)
qed

text \<open>
  C5 as stated fails: with the range set to \<open>100 .. 110\<close> and a draw of 105, which is
  within it, the fake data contains 105, and \<open>|110 - 100| = 10\<close>.
\<close>

theorem getFakeData_bound_counterexample:
  "priv_minDecibels analyser_100_110 = Fin 100 \<and>
   priv_maxDecibels analyser_100_110 = Fin 110 \<and>
   draw_105 (Fin 100) (Fin 110) 0 = 105 \<and>
   105 \<in> set (getFakeData draw_105 analyser_100_110) \<and>
   \<not> (105::rat) \<le> \<bar>110 - 100\<bar>"
  by code_simp

lemma update_fake:
  assumes "isPlaying this" "analyserNode this = None" "allowFakeData this"
  shows "update r hw this =
         Inr (this\<lparr>priv_dataArray := Some (getFakeData r this),
                   priv_dataTimeArray := Some (getFakeData r this)\<rparr>,
              Some (\<lparr>frequencyData = getFakeData r this, timeData = getFakeData r this,
                     frameBufferLength = priv_bufferLength this,
                     volume = Arr (getFakeData r this),
                     averageLeft = Num (getAvg (getFakeData r this)),
                     averageRight = Arr (getFakeData r this)\<rparr>,
                    bmpSoundAnalyze this))"
  using assms by (simp add: update_def Let_def)

text \<open>
  C3. In the frame dispatched from fake data, \<^verbatim>\<open>frequencyData\<close> and \<^verbatim>\<open>timeData\<close> are
  the fake array and \<^verbatim>\<open>averageLeft\<close> is its average, a number; \<^verbatim>\<open>volume\<close> and
  \<^verbatim>\<open>averageRight\<close> are the fake array itself (lines 277 and 279), not numbers.
\<close>

theorem update_fake_frame_slots:
  "analyserNode playing_32 = None \<and> allowFakeData playing_32 \<and> isPlaying playing_32 \<and>
   dispatched (update draw_bounds no_readings playing_32) =
     Some \<lparr>frequencyData = replicate 16 150 @ replicate 16 10,
           timeData = replicate 16 150 @ replicate 16 10,
           frameBufferLength = 32,
           volume = Arr (replicate 16 150 @ replicate 16 10),
           averageLeft = Num (Fin 80),
           averageRight = Arr (replicate 16 150 @ replicate 16 10)\<rparr>"
  by code_simp

section \<open>Properties of the resampling\<close>

subsection \<open>The loops\<close>

lemma fold_upt_pair:
  "fold (\<lambda>i (out, sz). (F i out, Some (G i))) [a..<b] (out, sz) =
   (fold F [a..<b] out, if b \<le> a then sz else Some (G (b - 1)))"
proof (induction b)
  case 0
  then show ?case by simp
next
  case (Suc b)
  show ?case
  proof (cases "a \<le> b")
    case True
    then show ?thesis using Suc.IH by simp
  next
    case False
    then show ?thesis by simp
  qed
qed

lemma direct_loop_eq:
  "direct_loop emit dataArray n mm om (out, sz) =
   (fold (\<lambda>i. emit (size_of mm om (elem dataArray i)) (percent_of mm (elem dataArray i)) i i)
      [0..<n] out,
    if n = 0 then sz else Some (size_of mm om (elem dataArray (n - 1))))"
  using fold_upt_pair [of "\<lambda>i. emit (size_of mm om (elem dataArray i)) (percent_of mm (elem dataArray i)) i i"
      "\<lambda>i. size_of mm om (elem dataArray i)" 0 n out sz]
  by (simp add: direct_loop_def size_of_def percent_of_def Let_def)

lemma run_loop_full:
  "i + (d - k) \<le> n \<Longrightarrow> n \<le> length dataArray \<Longrightarrow>
   \<bar>a\<bar> + abs_sum (take (d - k) (drop i dataArray)) \<le> 2 ^ 53 \<Longrightarrow>
   run_loop dataArray n (Fin (of_nat d)) k i (Fin (of_int a)) =
   (i + (d - k), Fin (of_int (a + run_sum dataArray i (d - k))))"
proof (induction "d - k" arbitrary: k i a)
  case 0
  then have "\<not> k < d" by simp
  then show ?case using 0 by (subst run_loop.simps) (simp add: run_sum_def)
next
  case (Suc m)
  have kd: "k < d" using Suc.hyps(2) by simp
  have m: "m = d - (k + 1)" using Suc.hyps(2) by simp
  have i: "i < n" using Suc.prems(1) Suc.hyps(2) by simp
  have il: "i < length dataArray" using i Suc.prems(2) by simp
  have pre: "i + 1 + (d - (k + 1)) \<le> n" using Suc.prems(1) kd by simp
  have dk: "d - k = Suc (d - (k + 1))" using kd by simp
  have dr: "drop i dataArray = dataArray ! i # drop (i + 1) dataArray"
    using il by (simp add: Cons_nth_drop_Suc)
  have tk: "take (d - k) (drop i dataArray) =
      dataArray ! i # take (d - (k + 1)) (drop (i + 1) dataArray)"
    by (simp only: dk dr take_Suc_Cons)
  have b: "\<bar>a\<bar> + \<bar>dataArray ! i\<bar> + abs_sum (take (d - (k + 1)) (drop (i + 1) dataArray)) \<le> 2 ^ 53"
    using Suc.prems(3) by (simp add: tk abs_sum_Cons)
  have b1: "\<bar>a + dataArray ! i\<bar> \<le> 2 ^ 53"
    using b abs_sum_nonneg [of "take (d - (k + 1)) (drop (i + 1) dataArray)"] by linarith
  have b2: "\<bar>a + dataArray ! i\<bar> + abs_sum (take (d - (k + 1)) (drop (i + 1) dataArray)) \<le> 2 ^ 53"
    using b by linarith
  have step: "run_loop dataArray n (Fin (of_nat d)) k i (Fin (of_int a)) =
      run_loop dataArray n (Fin (of_nat d)) (k + 1) (i + 1) (Fin (of_int (a + dataArray ! i)))"
    using kd i il js_add_int [OF b1] by (subst run_loop.simps) (simp add: elem_def)
  have rs: "run_sum dataArray i (d - k) = dataArray ! i + run_sum dataArray (i + 1) (d - (k + 1))"
    by (simp add: run_sum_def tk)
  show ?case
    using Suc.hyps(1) [OF m pre Suc.prems(2) b2] step rs kd
    by (simp add: add.assoc)
qed

lemma bars_loop_full:
  "x \<le> b \<Longrightarrow> b * d < n \<Longrightarrow> n \<le> length dataArray \<Longrightarrow>
   abs_sum (take n dataArray) \<le> 2 ^ 53 \<Longrightarrow>
   bars_loop emit dataArray n b (Fin (of_nat d)) mm om x (x * d) out sz =
   (b, b * d, fold (bar_call emit dataArray d mm om) [x..<b] out,
    if b \<le> x then sz else Some (size_of mm om (run_mean d (run_sum dataArray ((b - 1) * d) d))))"
proof (induction "b - x" arbitrary: x out sz)
  case 0
  then have "x = b" by simp
  then show ?case by (subst bars_loop.simps) simp
next
  case (Suc m)
  have xb: "x < b" using Suc.hyps(2) by simp
  have m: "m = b - (x + 1)" using Suc.hyps(2) by simp
  have le: "(x + 1) * d \<le> b * d" using xb by (intro mult_le_mono1) simp
  have lt: "(x + 1) * d < n" using le Suc.prems(2) by simp
  have seg: "abs_sum (take d (drop (x * d) dataArray)) \<le> 2 ^ 53"
    using abs_sum_segment [of "x * d" d n dataArray] lt Suc.prems(4) by simp
  have run: "run_loop dataArray n (Fin (of_nat d)) 0 (x * d) (Fin 0) =
             ((x + 1) * d, Fin (of_int (run_sum dataArray (x * d) d)))"
    using run_loop_full [of "x * d" d 0 n dataArray 0] lt Suc.prems(3) seg by simp
  have step: "bars_loop emit dataArray n b (Fin (of_nat d)) mm om x (x * d) out sz =
      bars_loop emit dataArray n b (Fin (of_nat d)) mm om (x + 1) ((x + 1) * d)
        (bar_call emit dataArray d mm om x out)
        (Some (size_of mm om (run_mean d (run_sum dataArray (x * d) d))))"
    using xb lt run
    by (subst bars_loop.simps)
       (simp add: bar_call_def size_of_def percent_of_def run_mean_def Let_def
          del: js_div.simps js_mul.simps js_floor.simps)
  have ih: "bars_loop emit dataArray n b (Fin (of_nat d)) mm om (x + 1) ((x + 1) * d)
        (bar_call emit dataArray d mm om x out)
        (Some (size_of mm om (run_mean d (run_sum dataArray (x * d) d)))) =
      (b, b * d, fold (bar_call emit dataArray d mm om) [x + 1..<b]
                   (bar_call emit dataArray d mm om x out),
       if b \<le> x + 1 then Some (size_of mm om (run_mean d (run_sum dataArray (x * d) d)))
       else Some (size_of mm om (run_mean d (run_sum dataArray ((b - 1) * d) d))))"
    using Suc.hyps(1) [OF m _ Suc.prems(2) Suc.prems(3) Suc.prems(4)] xb by simp
  have upt: "[x..<b] = x # [x + 1..<b]" using xb by (simp add: upt_conv_Cons)
  have last: "b \<le> x + 1 \<Longrightarrow> x = b - 1" using xb by simp
  show ?case
    using step ih xb last by (auto simp: upt)
qed

lemma rest_bucket_full:
  assumes "b * d < n" "n \<le> length dataArray" "abs_sum (take n dataArray) \<le> 2 ^ 53"
  shows "rest_bucket emit dataArray n (Fin (of_nat d)) mm om (b, b * d, out, sz) =
     (emit (size_of mm om (run_mean d (run_sum dataArray (b * d) (n - b * d))))
           (percent_of mm (run_mean d (run_sum dataArray (b * d) (n - b * d)))) (b + 1) n out,
      Some (size_of mm om (run_mean d (run_sum dataArray (b * d) (n - b * d)))))"
proof -
  have "abs_sum (take (n - b * d) (drop (b * d) dataArray)) \<le> 2 ^ 53"
    using abs_sum_segment [of "b * d" "n - b * d" n dataArray] assms(1,3) by simp
  then have "fold (\<lambda>i avg. js_add avg (elem dataArray i)) [b * d..<n] (Fin 0) =
        Fin (of_int (run_sum dataArray (b * d) (n - b * d)))"
    using fold_js_add_elem [OF assms(2), of 0 "b * d"] by (simp add: run_sum_def drop_take)
  then show ?thesis
    using assms(1)
    by (simp add: rest_bucket_def size_of_def percent_of_def run_mean_def Let_def
        del: js_div.simps js_mul.simps js_floor.simps)
qed

lemma js_round_nominal:
  assumes "0 < b" "int n \<le> 2 ^ 53"
  shows "js_round (js_div (Fin (of_nat n)) (Fin (of_nat b))) = Fin (of_nat (nominal_run n b))"
proof (cases "n = 0")
  case True
  have "\<lfloor>1 / 2 :: rat\<rfloor> = 0" by (simp add: floor_eq_iff)
  then show ?thesis using True assms(1) by (simp add: nominal_run_def round_double_def)
next
  case False
  let ?x = "rat_of_nat n / rat_of_nat b"
  have bpos: "0 < rat_of_nat b" using assms(1) by simp
  have xpos: "0 < ?x" using False bpos by simp
  have "rat_of_int (int n) \<le> rat_of_int (2 ^ 53)" using assms(2) by (simp only: of_int_le_iff)
  then have n53: "rat_of_nat n \<le> 2 ^ 53" by simp
  have "1 \<le> rat_of_nat b" using assms(1) by simp
  then have "?x \<le> rat_of_nat n" using bpos by (simp add: pos_divide_le_eq mult_le_cancel_left1)
  then have "?x \<le> 2 ^ 53" using n53 by linarith
  moreover have "(2::rat) ^ 53 < 2 powi 1023" by simp
  ultimately have "?x < 2 powi 1023" by linarith
  then obtain y where y: "round_double ?x = Fin y" "0 \<le> y"
    using round_double_nonneg [OF xpos] by blast
  have "0 \<le> \<lfloor>y + 1 / 2\<rfloor>" using y(2) by simp
  then have "rat_of_nat (nat \<lfloor>y + 1 / 2\<rfloor>) = rat_of_int \<lfloor>y + 1 / 2\<rfloor>"
    by (simp only: of_nat_nat)
  then show ?thesis
    using assms(1) y(1) by (simp add: nominal_run_def)
qed

lemma nominal_run_same: "0 < n \<Longrightarrow> nominal_run n n = 1"
  using round_double_int [of 1] by (simp add: nominal_run_def)

lemma resample_remainder:
  assumes b: "0 < b" and r: "b * nominal_run n b < n" and l: "n \<le> length dataArray"
    and c: "int n \<le> 2 ^ 53" and e: "abs_sum (take n dataArray) \<le> 2 ^ 53"
  shows "resample emit dataArray n b mm om (out, sz) =
     (rest_call emit dataArray n b (nominal_run n b) mm om
        (fold (bar_call emit dataArray (nominal_run n b) mm om) [0..<b] out),
      Some (size_of mm om (run_mean (nominal_run n b)
         (run_sum dataArray (b * nominal_run n b) (n - b * nominal_run n b)))))"
proof -
  have ne: "n \<noteq> b"
  proof
    assume "n = b"
    then show False using r b by (simp add: nominal_run_same)
  qed
  have bl: "bars_loop emit dataArray n b (Fin (of_nat (nominal_run n b))) mm om 0 0 out sz =
      (b, b * nominal_run n b, fold (bar_call emit dataArray (nominal_run n b) mm om) [0..<b] out,
       Some (size_of mm om (run_mean (nominal_run n b)
          (run_sum dataArray ((b - 1) * nominal_run n b) (nominal_run n b)))))"
    using bars_loop_full [of 0 b "nominal_run n b" n dataArray emit mm om out sz] b r l e by simp
  show ?thesis
    using ne unfolding resample_def Let_def js_round_nominal [OF b c] fst_conv snd_conv bl
    by (simp add: rest_bucket_full [OF r l e] rest_call_def)
qed

lemma eachAvgData_remainder_any_callback:
  assumes "0 < b" "b * nominal_run n b < n" "n \<le> length dataArray"
    "int n \<le> 2 ^ 53" "abs_sum (take n dataArray) \<le> 2 ^ 53"
  shows "eachAvgData g dataArray n b maxMinValue outMaxValue (Some f) s =
     ([],
      rest_call f dataArray n b (nominal_run n b) (or_default maxMinValue (Fin 256))
        (or_default outMaxValue (or_default maxMinValue (Fin 256)))
        (fold (bar_call f dataArray (nominal_run n b) (or_default maxMinValue (Fin 256))
                 (or_default outMaxValue (or_default maxMinValue (Fin 256)))) [0..<b] s),
      g\<lparr>size_global := Some (size_of (or_default maxMinValue (Fin 256))
         (or_default outMaxValue (or_default maxMinValue (Fin 256)))
         (run_mean (nominal_run n b)
            (run_sum dataArray (b * nominal_run n b) (n - b * nominal_run n b))))\<rparr>)"
  by (simp add: eachAvgData_def Let_def resample_remainder [OF assms])






subsection \<open>The remainder bucket\<close>




subsection \<open>One bucket per sample\<close>

lemma getAvgData_unbound:
  "normalizeValue g = None \<Longrightarrow>
   getAvgData g dataArray bufferLength resultSlots maxMinValue outMaxValue = Inl ReferenceError"
  by (simp add: getAvgData_def)

lemma fold_direct_push:
  "fold (\<lambda>i. push (f i) (p i) i i) js res = res @ map f js"
  by (induction js arbitrary: res) (simp_all add: push_def)

lemma getAvgData_direct:
  assumes "normalizeValue g = Some v"
  shows "getAvgData g dataArray n n maxMinValue outMaxValue =
     Inr (map (\<lambda>i. size_of (to_number maxMinValue) (to_number outMaxValue) (elem dataArray i)) [0..<n],
          g\<lparr>normalizeValue := Some (if js_truthy v then v else Fin 256),
            size_global := (if n = 0 then size_global g
               else Some (size_of (to_number maxMinValue) (to_number outMaxValue) (elem dataArray (n - 1))))\<rparr>)"
  using assms by (simp add: getAvgData_def resample_def direct_loop_eq fold_direct_push)

text \<open>
  Where the global is bound the elements are computed in doubles: a sample of 29 with
  both scales 100 gives \<open>floor(100 * (29 / 100)) = 28\<close>.
\<close>

lemma getAvgData_direct_rounds:
  "getAvgData bound_globals [29] 1 1 (Some (Fin 100)) (Some (Fin 100)) =
     Inr ([Fin 28], \<lparr>normalizeValue = Some (Fin 256), size_global = Some (Fin 28)\<rparr>)"
  by code_simp

text \<open>
  C4. In a global environment that has no binding for \<^verbatim>\<open>normalizeValue\<close>,
  \<^verbatim>\<open>getAvgData\<close> called with \<^verbatim>\<open>bufferLength = resultSlots = 2\<close> and both scale
  arguments supplied raises \<^verbatim>\<open>ReferenceError\<close> at its first statement (line 372) and
  returns nothing. (Where the global is bound, \<open>getAvgData_direct\<close> gives the elements
  the code computes.)
\<close>

theorem getAvgData_raises_ReferenceError:
  "normalizeValue fresh_globals = None \<and>
   getAvgData fresh_globals [1, 2] 2 2 (Some (Fin 256)) (Some (Fin 256)) = Inl ReferenceError"
  by code_simp

subsection \<open>Defaults of the scale arguments\<close>

lemma or_default_idem: "or_default (Some (or_default v d)) (or_default v d) = or_default v d"
  by (simp add: or_default_def split: option.splits)

lemma eachAvgData_defaults:
  "eachAvgData g dataArray n b None outMaxValue callback s =
     eachAvgData g dataArray n b (Some (Fin 256)) outMaxValue callback s"
  "eachAvgData g dataArray n b maxMinValue None callback s =
     eachAvgData g dataArray n b maxMinValue (Some (or_default maxMinValue (Fin 256))) callback s"
  by (simp_all add: eachAvgData_def or_default_def split: option.splits)

text \<open>
  C7. \<^verbatim>\<open>getAvgData\<close> has no defaults: called without \<^verbatim>\<open>maxMinValue\<close> and
  \<^verbatim>\<open>outMaxValue\<close> it raises \<^verbatim>\<open>ReferenceError\<close>, or, where the global
  \<^verbatim>\<open>normalizeValue\<close> is bound, computes with \<^verbatim>\<open>undefined\<close> and returns \<^verbatim>\<open>NaN\<close>,
  while the call with 256 and 256 returns 128. \<^verbatim>\<open>eachAvgData\<close> called without them
  does compute with 256 and 256.
\<close>

theorem getAvgData_no_defaults:
  "getAvgData fresh_globals [128] 1 1 None None = Inl ReferenceError \<and>
   getAvgData bound_globals [128] 1 1 None None =
     Inr ([NaN], \<lparr>normalizeValue = Some (Fin 256), size_global = Some NaN\<rparr>) \<and>
   getAvgData bound_globals [128] 1 1 (Some (Fin 256)) (Some (Fin 256)) =
     Inr ([Fin 128], \<lparr>normalizeValue = Some (Fin 256), size_global = Some (Fin 128)\<rparr>) \<and>
   eachAvgData fresh_globals [128] 1 1 None None (Some record_call) [] =
     ([], [(Fin 128, Fin (1 / 2), 0, 0)], \<lparr>normalizeValue = None, size_global = Some (Fin 128)\<rparr>)"
  by code_simp

subsection \<open>Effects on the global object\<close>

text \<open>
  C9. Both functions assign the undeclared identifier \<^verbatim>\<open>size\<close>: after a call the global
  object has a property \<^verbatim>\<open>size\<close> holding the last bucket's value, which it did not
  have before.
\<close>

theorem resample_writes_global_size:
  "size_global fresh_globals = None \<and>
   snd (snd (eachAvgData fresh_globals [128] 1 1 (Some (Fin 256)) (Some (Fin 256)) (Some record_call) [])) =
     \<lparr>normalizeValue = None, size_global = Some (Fin 128)\<rparr> \<and>
   size_global bound_globals = None \<and>
   getAvgData bound_globals [128] 1 1 (Some (Fin 256)) (Some (Fin 256)) =
     Inr ([Fin 128], \<lparr>normalizeValue = Some (Fin 256), size_global = Some (Fin 128)\<rparr>)"
  by code_simp

end
